theory Spec2Isabelle
  imports Complex_Main "HOL-Library.AList" "HOL-Library.List_Lexorder"
begin

section \<open>JavaScript helpers shared by both servers\<close>

text \<open>
  A JavaScript string is a sequence of UTF-16 code units; a code unit is a
  natural number here (below 65536 in every string that JavaScript can hold).
  \<open>js\<close> gives the code units of a string of ASCII characters, for the string
  constants of the sources and for examples.
\<close>

type_synonym jstring = "nat list"

definition js :: "string \<Rightarrow> jstring" where
  "js s = map of_char s"

text \<open>
  \<open>String.prototype.trim\<close> strips white space and line terminators from both
  ends: TAB, LF, VT, FF, CR, SPACE, NBSP (U+00A0), U+1680, U+2000 to U+200A,
  LS and PS (U+2028, U+2029), U+202F, U+205F, U+3000 and the byte order mark
  (U+FEFF). All of them are single code units.
\<close>

definition is_ws :: "nat \<Rightarrow> bool" where
  "is_ws c = (c \<in> set [9, 10, 11, 12, 13, 32, 160, 5760, 8232, 8233, 8239, 8287, 12288, 65279]
              \<or> (8192 \<le> c \<and> c \<le> 8202))"

definition trim :: "jstring \<Rightarrow> jstring" where
  "trim s = rev (dropWhile is_ws (rev (dropWhile is_ws s)))"

text \<open>\<open>Array.prototype.slice(-n)\<close>: the last \<open>n\<close> elements, the whole array
  when it is shorter.\<close>

definition slice_last :: "nat \<Rightarrow> 'a list \<Rightarrow> 'a list" where
  "slice_last n xs = drop (length xs - n) xs"

text \<open>
  A JavaScript \<open>Set\<close> of strings keeps its elements in insertion order and
  without repetition; it is a list here, so that \<open>forEach\<close> is a traversal of
  the list and \<open>size\<close> is its length.
\<close>

definition set_add :: "'a \<Rightarrow> 'a list \<Rightarrow> 'a list" where
  "set_add x xs = (if x \<in> set xs then xs else xs @ [x])"

definition set_delete :: "'a \<Rightarrow> 'a list \<Rightarrow> 'a list" where
  "set_delete x xs = removeAll x xs"

definition set_has :: "'a \<Rightarrow> 'a list \<Rightarrow> bool" where
  "set_has x xs = (x \<in> set xs)"

text \<open>
  Decimal rendering of a non-negative integer, as string concatenation does;
  the digit \<open>d\<close> is the code unit \<open>48 + d\<close>. The relational operators of
  JavaScript compare two strings code unit by code unit: this is the
  lexicographic order \<open><\<close> of lists of numbers.
\<close>

fun show_nat :: "nat \<Rightarrow> jstring" where
  "show_nat n = (if n < 10 then [48 + n] else show_nat (n div 10) @ [48 + n mod 10])"

declare show_nat.simps [simp del]

text \<open>
  A value that a client sends where the handler expects a string. The handlers
  tell three cases apart: a string (the empty string is falsy); a value that
  is not a string and is falsy (\<open>undefined\<close>, \<open>null\<close>, \<open>false\<close>, \<open>0\<close>, \<open>NaN\<close>);
  and a value that is not a string and is truthy (another number, \<open>true\<close>, an
  object, an array), which has no method \<open>trim\<close>.
\<close>

datatype payload = No_value | Str jstring | Not_string

text \<open>
  A handler returns, or it throws a TypeError that nothing catches; either
  way it leaves the state and the events emitted up to that point.
\<close>

datatype 'a outcome = Returns 'a | Throws 'a

fun reached :: "'a outcome \<Rightarrow> 'a" where
  "reached (Returns x) = x"
| "reached (Throws x) = x"

text \<open>
  Where a handler emits to: \<open>socket.emit\<close> (the connection itself),
  \<open>socket.to(room).emit\<close> (the room without the sender), \<open>io.to(room).emit\<close>
  (the whole room) and \<open>io.emit\<close> (every connection). An event keeps the name of
  its target: the delivery groups that socket.io maintains by \<open>socket.join\<close> and
  \<open>socket.leave\<close> are the library's state and not part of the servers' state.
  The greeting that a server emits when a connection is opened (\<open>connected\<close>,
  \<open>room_list\<close>) reads the state and changes nothing.
\<close>

datatype target =
    To_socket jstring
  | To_room_except jstring jstring
  | To_room jstring
  | To_all

section \<open>The backend server (src/backend/server.js)\<close>

subsection \<open>State\<close>

record b_message =
  bm_id :: jstring
  bm_user :: jstring
  bm_userId :: jstring
  bm_message :: jstring
  bm_room :: jstring
  bm_timestamp :: nat
  bm_serverTime :: nat

record b_user =
  bu_username :: jstring
  bu_socketId :: jstring
  bu_rooms :: "jstring list"
  bu_connectedAt :: nat
  bu_lastActivity :: nat

record b_room =
  br_name :: jstring
  br_users :: "jstring list"
  br_messages :: "b_message list"
  br_createdAt :: nat

text \<open>
  \<open>users\<close> is a \<open>Map\<close> that is only looked up, set and deleted by key; \<open>rooms\<close>
  is a \<open>Map\<close> that is also listed (\<open>rooms.values()\<close>), so it keeps the insertion
  order of its keys in an association list.
\<close>

record b_state =
  b_users :: "jstring \<rightharpoonup> b_user"
  b_rooms :: "(jstring \<times> b_room) list"

definition b_init :: b_state where
  "b_init = \<lparr>b_users = Map.empty, b_rooms = []\<rparr>"

datatype b_payload =
    Error_msg string
  | User_registered jstring jstring
  | Rooms_list "(jstring \<times> nat \<times> nat) list"
  | Room_history jstring "b_message list" nat nat
  | User_joined jstring jstring jstring nat nat
  | Receive_message b_message
  | User_left jstring jstring jstring nat nat

type_synonym b_event = "target \<times> b_payload"

definition rooms_get :: "b_state \<Rightarrow> jstring \<Rightarrow> b_room option" where
  "rooms_get s r = map_of (b_rooms s) r"

definition rooms_set :: "jstring \<Rightarrow> b_room \<Rightarrow> b_state \<Rightarrow> b_state" where
  "rooms_set r rd s = s\<lparr>b_rooms := AList.update r rd (b_rooms s)\<rparr>"

definition room_list :: "b_state \<Rightarrow> (jstring \<times> nat \<times> nat) list" where
  "room_list s = map (\<lambda>(k, room). (br_name room, length (br_users room), length (br_messages room))) (b_rooms s)"

subsection \<open>Handlers\<close>

text \<open>
  Every handler runs for one connection \<open>sid\<close> (\<open>socket.id\<close>), at the clock
  reading \<open>now\<close> (\<open>Date.now()\<close>, in milliseconds; the ISO rendering of an
  instant is represented by the same number), and gives the new state with the
  events it emitted, in order. A handler that reads the clock several times
  in one run is given one reading for all of them; what is proved below about
  message ids speaks of the reading that the id is formed from and of no time
  stamp.

  \<open>register_user\<close> calls \<open>trim\<close> on the name it received when that is truthy:
  a truthy value that is not a string makes the first statement of the
  handler throw, before anything is stored or emitted.
\<close>

definition register_user :: "jstring \<Rightarrow> nat \<Rightarrow> payload \<Rightarrow> b_state \<Rightarrow> (b_state \<times> b_event list) outcome" where
  "register_user sid now username s =
    (case username of
       Not_string \<Rightarrow> Throws (s, [])
     | _ \<Rightarrow>
        let safeUsername = trim (case username of
                                   Str u \<Rightarrow> if u = [] then js ''User_'' @ take 6 sid else u
                                 | _ \<Rightarrow> js ''User_'' @ take 6 sid);
            userData = \<lparr>bu_username = safeUsername, bu_socketId = sid, bu_rooms = [],
                        bu_connectedAt = now, bu_lastActivity = now\<rparr>;
            s' = s\<lparr>b_users := (b_users s)(sid \<mapsto> userData)\<rparr>
        in Returns (s', [(To_socket sid, User_registered sid safeUsername),
                         (To_socket sid, Rooms_list (room_list s'))]))"

text \<open>The room name of \<open>join_room\<close> is \<open>None\<close> when it is not a string: the
  handler tests \<open>typeof roomName\<close> before it calls \<open>trim\<close>.\<close>

definition join_room :: "jstring \<Rightarrow> nat \<Rightarrow> jstring option \<Rightarrow> b_state \<Rightarrow> b_state \<times> b_event list" where
  "join_room sid now roomName s =
    (case roomName of
       None \<Rightarrow> (s, [(To_socket sid, Error_msg ''Valid room name is required'')])
     | Some rn \<Rightarrow>
        if trim rn = [] then (s, [(To_socket sid, Error_msg ''Valid room name is required'')])
        else
          let room = trim rn in
          (case b_users s sid of
             None \<Rightarrow> (s, [(To_socket sid, Error_msg ''Please register first'')])
           | Some user \<Rightarrow>
              let roomData = (case rooms_get s room of
                                None \<Rightarrow> \<lparr>br_name = room, br_users = [], br_messages = [],
                                         br_createdAt = now\<rparr>
                              | Some rd \<Rightarrow> rd);
                  roomData' = roomData\<lparr>br_users := set_add sid (br_users roomData)\<rparr>;
                  user' = user\<lparr>bu_rooms := set_add room (bu_rooms user), bu_lastActivity := now\<rparr>;
                  s' = (rooms_set room roomData' s)\<lparr>b_users := (b_users s)(sid \<mapsto> user')\<rparr>
              in (s', [(To_socket sid,
                          Room_history room (slice_last 100 (br_messages roomData'))
                            (length (br_users roomData')) now),
                       (To_room_except room sid,
                          User_joined room (bu_username user') sid now (length (br_users roomData')))])))"

text \<open>
  The id of a message is the string \<open>Date.now() + '-' + Math.random().toString(36).substr(2, 9)\<close>;
  the random suffix \<open>rnd\<close> is supplied by the environment. (A clock reading is
  an integer below \<open>10 ^ 21\<close>, which \<open>+\<close> renders in decimal digits.)
\<close>

definition b_message_id :: "nat \<Rightarrow> jstring \<Rightarrow> jstring" where
  "b_message_id now rnd = show_nat now @ js ''-'' @ rnd"

definition b_messageData :: "jstring \<Rightarrow> nat \<Rightarrow> jstring \<Rightarrow> b_user \<Rightarrow> jstring \<Rightarrow> jstring \<Rightarrow> b_message" where
  "b_messageData sid now rnd user room trimmedMessage =
     \<lparr>bm_id = b_message_id now rnd, bm_user = bu_username user, bm_userId = sid,
      bm_message = trimmedMessage, bm_room = room, bm_timestamp = now, bm_serverTime = now\<rparr>"

definition push_trim :: "b_message \<Rightarrow> b_message list \<Rightarrow> b_message list" where
  "push_trim m ms = (let ms' = ms @ [m] in if length ms' > 1000 then slice_last 500 ms' else ms')"

text \<open>The message of \<open>send_message\<close> is \<open>None\<close> when it is not a string (the
  handler tests \<open>typeof message\<close>); the room is a string, the empty one
  standing for every falsy value.\<close>

definition send_message :: "jstring \<Rightarrow> nat \<Rightarrow> jstring \<Rightarrow> jstring \<Rightarrow> jstring option \<Rightarrow> b_state \<Rightarrow> b_state \<times> b_event list" where
  "send_message sid now rnd room message s =
    (case message of
       None \<Rightarrow> (s, [(To_socket sid, Error_msg ''Room and valid message are required'')])
     | Some msg \<Rightarrow>
        if room = [] \<or> msg = [] then
          (s, [(To_socket sid, Error_msg ''Room and valid message are required'')])
        else
          (case b_users s sid of
             None \<Rightarrow> (s, [(To_socket sid, Error_msg ''Please register first'')])
           | Some user \<Rightarrow>
             (case rooms_get s room of
                None \<Rightarrow> (s, [(To_socket sid, Error_msg ''Room does not exist'')])
              | Some roomData \<Rightarrow>
                 if \<not> set_has sid (br_users roomData) then
                   (s, [(To_socket sid, Error_msg ''You are not in this room'')])
                 else
                   let trimmedMessage = trim msg in
                   if length trimmedMessage = 0 then (s, [])
                   else
                     let messageData = b_messageData sid now rnd user room trimmedMessage;
                         roomData' = roomData\<lparr>br_messages := push_trim messageData (br_messages roomData)\<rparr>;
                         user' = user\<lparr>bu_lastActivity := now\<rparr>;
                         s' = (rooms_set room roomData' s)\<lparr>b_users := (b_users s)(sid \<mapsto> user')\<rparr>
                     in (s', [(To_room room, Receive_message messageData)]))))"

definition get_rooms :: "jstring \<Rightarrow> b_state \<Rightarrow> b_state \<times> b_event list" where
  "get_rooms sid s = (s, [(To_socket sid, Rooms_list (room_list s))])"

definition leave_room :: "jstring \<Rightarrow> nat \<Rightarrow> jstring \<Rightarrow> b_state \<Rightarrow> b_state \<times> b_event list" where
  "leave_room sid now roomName s =
    (case (rooms_get s roomName, b_users s sid) of
       (Some room, Some user) \<Rightarrow>
         let room' = room\<lparr>br_users := set_delete sid (br_users room)\<rparr>;
             user' = user\<lparr>bu_rooms := set_delete roomName (bu_rooms user)\<rparr>;
             s' = (rooms_set roomName room' s)\<lparr>b_users := (b_users s)(sid \<mapsto> user')\<rparr>
         in (s', [(To_room_except roomName sid,
                     User_left roomName (bu_username user') sid now (length (br_users room')))])
     | _ \<Rightarrow> (s, []))"

text \<open>The body of \<open>user.rooms.forEach\<close> in the disconnect handler, for one room name.\<close>

definition disconnect_room :: "jstring \<Rightarrow> nat \<Rightarrow> b_user \<Rightarrow> jstring \<Rightarrow> b_state \<times> b_event list \<Rightarrow> b_state \<times> b_event list" where
  "disconnect_room sid now user roomName acc =
    (case acc of (s, evs) \<Rightarrow>
      (case rooms_get s roomName of
         None \<Rightarrow> (s, evs)
       | Some room \<Rightarrow>
          let room' = room\<lparr>br_users := set_delete sid (br_users room)\<rparr>
          in (rooms_set roomName room' s,
              evs @ [(To_room_except roomName sid,
                        User_left roomName (bu_username user) sid now (length (br_users room')))])))"

definition disconnect :: "jstring \<Rightarrow> nat \<Rightarrow> b_state \<Rightarrow> b_state \<times> b_event list" where
  "disconnect sid now s =
    (let (s1, evs) = (case b_users s sid of
                        None \<Rightarrow> (s, [])
                      | Some user \<Rightarrow> foldl (\<lambda>acc roomName. disconnect_room sid now user roomName acc)
                                       (s, []) (bu_rooms user))
     in (s1\<lparr>b_users := (b_users s1)(sid := None)\<rparr>, evs))"

section \<open>The persistent server (src/server.js, second program of the file)\<close>

subsection \<open>State\<close>

text \<open>
  Modelled from the spec: the bcryptjs library (\<open>bcrypt.hash\<close>, \<open>bcrypt.compare\<close>) is
  not part of the sources; the spec calls it a slow, salted one-way hash that is
  compared with the supplied password. It is a symbolic hash here: the hash of
  a password under a salt is the term \<open>Bcrypt salt password\<close>, and a password
  matches a hash when it is the hashed one. The salt is chosen by the
  environment.
\<close>

datatype bcrypt_hash = Bcrypt nat jstring

definition bcrypt_hash :: "nat \<Rightarrow> jstring \<Rightarrow> bcrypt_hash" where
  "bcrypt_hash salt pw = Bcrypt salt pw"

fun bcrypt_compare :: "jstring \<Rightarrow> bcrypt_hash \<Rightarrow> bool" where
  "bcrypt_compare pw (Bcrypt salt hashed) = (pw = hashed)"

datatype p_body = Text_body jstring | File_body jstring jstring jstring

text \<open>
  The id of a message is the number \<open>Date.now() + Math.random()\<close>. Numbers are
  IEEE 754 doubles: the sum is the double nearest to the exact sum, a tie
  going to the even significand. A double from \<open>2 ^ e\<close> up to \<open>2 ^ (e + 1)\<close> is
  a multiple of \<open>2 ^ (e - 52)\<close>; \<open>log2\<close> of the integer part of a number from 1
  on is that \<open>e\<close>. \<open>Math.random()\<close> is a double from 0 (included) to 1
  (excluded), supplied by the environment, so a sum below 1 (the clock reads
  0) is the random number itself. The clock reading is a natural number of
  milliseconds, below \<open>2 ^ 53\<close> for every date that JavaScript can hold.
\<close>

definition round_even :: "rat \<Rightarrow> int" where
  "round_even y =
    (let f = \<lfloor>y\<rfloor> in
     if y - of_int f < 1 / 2 then f
     else if 1 / 2 < y - of_int f then f + 1
     else if even f then f else f + 1)"

fun log2 :: "nat \<Rightarrow> nat" where
  "log2 n = (if n < 2 then 0 else Suc (log2 (n div 2)))"

declare log2.simps [simp del]

definition to_double :: "rat \<Rightarrow> rat" where
  "to_double x =
    (if x < 1 then x
     else
       let e = log2 (nat \<lfloor>x\<rfloor>) in
       if e \<le> 52 then of_int (round_even (x * 2 ^ (52 - e))) / 2 ^ (52 - e)
       else of_int (round_even (x / 2 ^ (e - 52))) * 2 ^ (e - 52))"

record p_message =
  pm_id :: rat
  pm_username :: jstring
  pm_body :: p_body
  pm_time :: nat
  pm_timestamp :: nat

record p_room =
  pr_name :: jstring
  pr_password :: "bcrypt_hash option"
  pr_creator :: jstring
  pr_users :: "jstring list"
  pr_messages :: "p_message list"

record p_user =
  pu_username :: jstring
  pu_currentRoom :: jstring

text \<open>
  \<open>rooms\<close> and \<open>users\<close> are plain objects used as dictionaries. \<open>rooms\<close> is
  listed by \<open>Object.keys\<close>, so its own properties are an association list in
  insertion order. \<open>users\<close> is keyed by the connection ids, which socket.io
  generates (twenty characters, the last of them from a counter): they are
  taken not to be names of properties of \<open>Object.prototype\<close>.
\<close>

record p_state =
  p_rooms :: "(jstring \<times> p_room) list"
  p_users :: "jstring \<rightharpoonup> p_user"

definition default_rooms :: "(jstring \<times> p_room) list" where
  "default_rooms =
    [(js ''general'', \<lparr>pr_name = js ''General Chat'', pr_password = None, pr_creator = js ''system'',
                       pr_users = [], pr_messages = []\<rparr>),
     (js ''random'', \<lparr>pr_name = js ''Random Talk'', pr_password = None, pr_creator = js ''system'',
                      pr_users = [], pr_messages = []\<rparr>),
     (js ''tech'', \<lparr>pr_name = js ''Tech Talk'', pr_password = None, pr_creator = js ''system'',
                    pr_users = [], pr_messages = []\<rparr>)]"

definition p_init :: p_state where
  "p_init = \<lparr>p_rooms = default_rooms, p_users = Map.empty\<rparr>"

datatype p_payload =
    Join_error string
  | Create_error string
  | P_user_left jstring jstring
  | Room_update jstring nat "bool option"
  | Room_joined jstring jstring "p_message list"
  | P_user_joined jstring jstring
  | New_room jstring jstring nat bool jstring
  | Auto_join jstring jstring
  | Message p_message
  | User_typing jstring bool

type_synonym p_event = "target \<times> p_payload"

text \<open>The room stored under a key: an own property of \<open>rooms\<close>.\<close>

definition p_rooms_get :: "p_state \<Rightarrow> jstring \<Rightarrow> p_room option" where
  "p_rooms_get s r = map_of (p_rooms s) r"

definition p_rooms_set :: "jstring \<Rightarrow> p_room \<Rightarrow> p_state \<Rightarrow> p_state" where
  "p_rooms_set r rd s = s\<lparr>p_rooms := AList.update r rd (p_rooms s)\<rparr>"

text \<open>
  The room id is chosen by the client, and \<open>rooms[roomId]\<close> also finds what
  \<open>rooms\<close> inherits from \<open>Object.prototype\<close>: its methods and \<open>__proto__\<close>. Such
  a value is truthy and is no room: it has no \<open>password\<close>, and reading its
  \<open>users\<close> or \<open>messages\<close> gives \<open>undefined\<close>.
\<close>

definition proto_keys :: "jstring list" where
  "proto_keys =
    [js ''constructor'', js ''__proto__'', js ''hasOwnProperty'', js ''isPrototypeOf'',
     js ''propertyIsEnumerable'', js ''toLocaleString'', js ''toString'', js ''valueOf'',
     js ''__defineGetter__'', js ''__defineSetter__'', js ''__lookupGetter__'', js ''__lookupSetter__'']"

datatype 'a property = Own 'a | Inherited | Undefined

definition p_rooms_look :: "p_state \<Rightarrow> jstring \<Rightarrow> p_room property" where
  "p_rooms_look s r =
    (case p_rooms_get s r of
       Some rd \<Rightarrow> Own rd
     | None \<Rightarrow> if r \<in> set proto_keys then Inherited else Undefined)"

subsection \<open>Handlers\<close>

text \<open>
  The handlers of one connection \<open>sid\<close>. The two asynchronous handlers are run
  to completion as one step: they suspend only while bcrypt computes.
\<close>

text \<open>The password check of \<open>join_room\<close>: the message of the \<open>join_error\<close> it
  emits, if any. A password that is no string (\<open>None\<close>) makes \<open>bcrypt.compare\<close>
  throw, which the handler catches.\<close>

definition check_password :: "p_room \<Rightarrow> jstring option \<Rightarrow> string option" where
  "check_password room password =
    (case pr_password room of
       None \<Rightarrow> None
     | Some h \<Rightarrow>
        (case password of
           None \<Rightarrow> Some ''Server error''
         | Some pw \<Rightarrow> if bcrypt_compare pw h then None else Some ''Incorrect password''))"

text \<open>
  The block "Leave previous room". \<open>users.splice(users.indexOf(x), 1)\<close>, guarded by
  \<open>index > -1\<close>, removes the first occurrence (\<open>remove1\<close>). Reading
  \<open>rooms[oldRoom].users.indexOf\<close> when \<open>oldRoom\<close> is no own property of \<open>rooms\<close>
  throws a TypeError (\<open>None\<close>), before the block has changed anything.
\<close>

definition leave_previous :: "jstring \<Rightarrow> p_state \<Rightarrow> (p_state \<times> p_event list) option" where
  "leave_previous sid s =
    (case p_users s sid of
       None \<Rightarrow> Some (s, [])
     | Some u \<Rightarrow>
        if pu_currentRoom u = [] then Some (s, [])
        else
          let oldRoom = pu_currentRoom u in
          (case p_rooms_get s oldRoom of
             None \<Rightarrow> None
           | Some old \<Rightarrow>
              if sid \<in> set (pr_users old) then
                let old' = old\<lparr>pr_users := remove1 sid (pr_users old)\<rparr>
                in Some (p_rooms_set oldRoom old' s,
                         [(To_room oldRoom, P_user_left (pu_username u) oldRoom),
                          (To_room oldRoom, Room_update oldRoom (length (pr_users old')) None)])
              else Some (s, [])))"

text \<open>
  \<open>join_room\<close>. For an id that \<open>rooms\<close> only inherits the handler passes the
  first test and the password check, leaves the previous room, records the
  id as the current room of the connection and throws at
  \<open>rooms[roomId].users.push\<close>.
\<close>

definition p_join_room :: "jstring \<Rightarrow> jstring \<Rightarrow> jstring \<Rightarrow> jstring option \<Rightarrow> p_state \<Rightarrow> (p_state \<times> p_event list) outcome" where
  "p_join_room sid roomId username password s =
    (case p_rooms_look s roomId of
       Undefined \<Rightarrow> Returns (s, [(To_socket sid, Join_error ''Room does not exist'')])
     | Inherited \<Rightarrow>
        (case leave_previous sid s of
           None \<Rightarrow> Throws (s, [])
         | Some (s1, evs) \<Rightarrow>
            Throws (s1\<lparr>p_users := (p_users s1)(sid \<mapsto> \<lparr>pu_username = username, pu_currentRoom = roomId\<rparr>)\<rparr>, evs))
     | Own room \<Rightarrow>
        (case check_password room password of
           Some err \<Rightarrow> Returns (s, [(To_socket sid, Join_error err)])
         | None \<Rightarrow>
            (case leave_previous sid s of
               None \<Rightarrow> Throws (s, [])
             | Some (s1, evs) \<Rightarrow>
                (case p_rooms_get s1 roomId of
                   None \<Rightarrow>
                     Throws (s1\<lparr>p_users := (p_users s1)(sid \<mapsto> \<lparr>pu_username = username, pu_currentRoom = roomId\<rparr>)\<rparr>, evs)
                 | Some room1 \<Rightarrow>
                    let room' = room1\<lparr>pr_users := pr_users room1 @ [sid]\<rparr>;
                        s2 = (p_rooms_set roomId room' s1)
                               \<lparr>p_users := (p_users s1)(sid \<mapsto> \<lparr>pu_username = username, pu_currentRoom = roomId\<rparr>)\<rparr>
                    in Returns (s2, evs @
                         [(To_socket sid, Room_joined roomId (pr_name room') (slice_last 50 (pr_messages room'))),
                          (To_room_except roomId sid, P_user_joined username roomId),
                          (To_all, Room_update roomId (length (pr_users room')) (Some (pr_password room' \<noteq> None)))])))))"

text \<open>
  \<open>create_room\<close>. Whatever \<open>rooms[roomId]\<close> finds, own or inherited, counts as
  an existing room. \<open>password && password.trim()\<close> throws for a truthy
  password that is no string.
\<close>

definition p_create_room :: "jstring \<Rightarrow> nat \<Rightarrow> jstring \<Rightarrow> jstring \<Rightarrow> payload \<Rightarrow> jstring \<Rightarrow> p_state \<Rightarrow> (p_state \<times> p_event list) outcome" where
  "p_create_room sid salt roomId roomName password creator s =
    (case p_rooms_look s roomId of
       Undefined \<Rightarrow>
        (case password of
           Not_string \<Rightarrow> Throws (s, [])
         | _ \<Rightarrow>
            let hashedPassword = (case password of
                                    Str pw \<Rightarrow> if pw \<noteq> [] \<and> trim pw \<noteq> [] then Some (bcrypt_hash salt (trim pw)) else None
                                  | _ \<Rightarrow> None)
            in Returns (p_rooms_set roomId \<lparr>pr_name = roomName, pr_password = hashedPassword, pr_creator = creator,
                                             pr_users = [], pr_messages = []\<rparr> s,
                        [(To_all, New_room roomId roomName 0 (hashedPassword \<noteq> None) creator),
                         (To_socket sid, Auto_join roomId roomName)]))
     | _ \<Rightarrow> Returns (s, [(To_socket sid, Create_error ''Room already exists'')]))"

definition p_message_id :: "nat \<Rightarrow> rat \<Rightarrow> rat" where
  "p_message_id now rnd = to_double (of_nat now + rnd)"

text \<open>
  The handlers \<open>message\<close> and \<open>file_upload\<close> differ in the body of the message
  only. For an id that \<open>rooms\<close> only inherits the guard passes and
  \<open>rooms[roomId].messages.push\<close> throws. The id, the time and the time stamp of
  a message are three readings of the clock; as in the backend server they
  are one reading here, the one that the id is formed from.
\<close>

definition p_push :: "jstring \<Rightarrow> nat \<Rightarrow> rat \<Rightarrow> jstring \<Rightarrow> p_body \<Rightarrow> p_state \<Rightarrow> (p_state \<times> p_event list) outcome" where
  "p_push sid now rnd roomId body s =
    (case p_users s sid of
       None \<Rightarrow> Returns (s, [])
     | Some u \<Rightarrow>
        (case p_rooms_look s roomId of
           Undefined \<Rightarrow> Returns (s, [])
         | Inherited \<Rightarrow> Throws (s, [])
         | Own room \<Rightarrow>
            let messageData = \<lparr>pm_id = p_message_id now rnd, pm_username = pu_username u, pm_body = body,
                               pm_time = now, pm_timestamp = now\<rparr>
            in Returns (p_rooms_set roomId (room\<lparr>pr_messages := pr_messages room @ [messageData]\<rparr>) s,
                        [(To_room roomId, Message messageData)])))"

definition p_message :: "jstring \<Rightarrow> nat \<Rightarrow> rat \<Rightarrow> jstring \<Rightarrow> jstring \<Rightarrow> p_state \<Rightarrow> (p_state \<times> p_event list) outcome" where
  "p_message sid now rnd roomId text s = p_push sid now rnd roomId (Text_body text) s"

definition p_file_upload :: "jstring \<Rightarrow> nat \<Rightarrow> rat \<Rightarrow> jstring \<Rightarrow> jstring \<Rightarrow> jstring \<Rightarrow> jstring \<Rightarrow> p_state \<Rightarrow> (p_state \<times> p_event list) outcome" where
  "p_file_upload sid now rnd roomId fileData fileName fileType s =
     p_push sid now rnd roomId (File_body fileName fileData fileType) s"



subsection \<open>Persistence\<close>

text \<open>
  The data directory with its two documents. A document is missing, or present
  and not parsable as JSON, or the JSON value \<open>null\<close>, or it holds an object:
  the message histories by room id (a \<open>null\<close> history is \<open>None\<close>), or the rooms
  by room id. (A document that holds another JSON value, or the key
  \<open>__proto__\<close>, has no counterpart here.)
\<close>

datatype 'a document = Missing | Unparsable | Json_null | Parsed 'a

record data_dir =
  dir_exists :: bool
  messagesFile :: "(jstring \<times> p_message list option) list document"
  roomsFile :: "(jstring \<times> p_room) list document"

definition merge_messages :: "(jstring \<times> p_message list option) list \<Rightarrow> (jstring \<times> p_room) list \<Rightarrow> (jstring \<times> p_room) list" where
  "merge_messages savedMessages rooms =
     foldl (\<lambda>rs (roomId, saved).
              case map_of rs roomId of
                None \<Rightarrow> rs
              | Some room \<Rightarrow> AList.update roomId
                               (room\<lparr>pr_messages := (case saved of None \<Rightarrow> [] | Some ms \<Rightarrow> ms)\<rparr>) rs)
           rooms savedMessages"

definition merge_rooms :: "(jstring \<times> p_room) list \<Rightarrow> (jstring \<times> p_room) list \<Rightarrow> (jstring \<times> p_room) list" where
  "merge_rooms savedRooms rooms = foldl (\<lambda>rs (roomId, room). AList.update roomId room rs) rooms savedRooms"

text \<open>The \<open>catch\<close> block of \<open>loadData\<close>: the directory is made and both documents
  are written as the empty object (the writes are taken to succeed).\<close>

definition start_fresh :: "data_dir \<Rightarrow> data_dir" where
  "start_fresh d = d\<lparr>dir_exists := True, messagesFile := Parsed [], roomsFile := Parsed []\<rparr>"

text \<open>
  \<open>loadData\<close> reads and parses both documents before it merges. \<open>Object.keys(null)\<close>
  throws into the \<open>catch\<close> block: for the messages document before anything is
  merged, for the rooms document after the histories have been merged.
\<close>

definition loadData :: "data_dir \<Rightarrow> (jstring \<times> p_room) list \<Rightarrow> (jstring \<times> p_room) list \<times> data_dir" where
  "loadData d rooms =
    (if \<not> dir_exists d then (rooms, start_fresh d)
     else (case messagesFile d of
             Parsed savedMessages \<Rightarrow>
               (case roomsFile d of
                  Parsed savedRooms \<Rightarrow> (merge_rooms savedRooms (merge_messages savedMessages rooms), d)
                | Json_null \<Rightarrow> (merge_messages savedMessages rooms, start_fresh d)
                | _ \<Rightarrow> (rooms, start_fresh d))
           | _ \<Rightarrow> (rooms, start_fresh d)))"

text \<open>\<open>saveData\<close> catches its own errors: without the directory nothing is
  written.\<close>

definition saveData :: "(jstring \<times> p_room) list \<Rightarrow> data_dir \<Rightarrow> data_dir" where
  "saveData rooms d =
    (if \<not> dir_exists d then d else
     d\<lparr>messagesFile := Parsed (map (\<lambda>(roomId, room). (roomId, Some (slice_last 100 (pr_messages room)))) rooms),
       roomsFile := Parsed (map (\<lambda>(roomId, room). (roomId, \<lparr>pr_name = pr_name room, pr_password = pr_password room,
                                   pr_creator = pr_creator room, pr_users = [], pr_messages = []\<rparr>)) rooms)\<rparr>)"

section \<open>Runs and observations\<close>

text \<open>
  The requests a client of the backend server can send, and the state after a
  sequence of them: \<open>None\<close> when a handler has thrown, which ends the server
  process. (\<open>ping\<close> answers \<open>pong\<close> and reads no state.)
\<close>

datatype b_request =
    Register_user payload
  | Join_room "jstring option"
  | Send_message jstring jstring "jstring option"
  | Get_rooms
  | Leave_room jstring
  | Disconnect

fun b_step :: "jstring \<Rightarrow> nat \<Rightarrow> b_request \<Rightarrow> b_state \<Rightarrow> (b_state \<times> b_event list) outcome" where
  "b_step sid now (Register_user username) s = register_user sid now username s"
| "b_step sid now (Join_room roomName) s = Returns (join_room sid now roomName s)"
| "b_step sid now (Send_message rnd room message) s = Returns (send_message sid now rnd room message s)"
| "b_step sid now Get_rooms s = Returns (get_rooms sid s)"
| "b_step sid now (Leave_room roomName) s = Returns (leave_room sid now roomName s)"
| "b_step sid now Disconnect s = Returns (disconnect sid now s)"

fun b_run :: "(jstring \<times> nat \<times> b_request) list \<Rightarrow> b_state \<Rightarrow> b_state option" where
  "b_run [] s = Some s"
| "b_run ((sid, now, rq) # reqs) s =
     (case b_step sid now rq s of Returns (s', evs) \<Rightarrow> b_run reqs s' | Throws x \<Rightarrow> None)"

text \<open>The log and the member set of a room (empty for a room that does not exist).\<close>

definition room_log :: "b_state \<Rightarrow> jstring \<Rightarrow> b_message list" where
  "room_log s room = (case rooms_get s room of None \<Rightarrow> [] | Some rd \<Rightarrow> br_messages rd)"

definition room_members :: "b_state \<Rightarrow> jstring \<Rightarrow> jstring list" where
  "room_members s room = (case rooms_get s room of None \<Rightarrow> [] | Some rd \<Rightarrow> br_users rd)"

text \<open>Consecutive \<open>send_message\<close> requests of one connection to one room; an input is
  the clock reading, the random suffix and the text.\<close>

definition send_all :: "jstring \<Rightarrow> jstring \<Rightarrow> (nat \<times> jstring \<times> jstring) list \<Rightarrow> b_state \<Rightarrow> b_state" where
  "send_all sid room inputs s =
     foldl (\<lambda>s (now, rnd, text). fst (send_message sid now rnd room (Some text) s)) s inputs"

text \<open>The message record that a successful \<open>send_message\<close> of a user named \<open>uname\<close>
  stores for an input.\<close>

definition stored :: "jstring \<Rightarrow> jstring \<Rightarrow> jstring \<Rightarrow> (nat \<times> jstring \<times> jstring) \<Rightarrow> b_message" where
  "stored sid uname room i =
     (case i of (now, rnd, text) \<Rightarrow>
        \<lparr>bm_id = b_message_id now rnd, bm_user = uname, bm_userId = sid,
         bm_message = trim text, bm_room = room, bm_timestamp = now, bm_serverTime = now\<rparr>)"

text \<open>The same for the persistent server.\<close>

definition p_room_log :: "p_state \<Rightarrow> jstring \<Rightarrow> p_message list" where
  "p_room_log s room = (case p_rooms_get s room of None \<Rightarrow> [] | Some rd \<Rightarrow> pr_messages rd)"


definition p_send_all :: "jstring \<Rightarrow> jstring \<Rightarrow> (nat \<times> rat \<times> jstring) list \<Rightarrow> p_state \<Rightarrow> p_state" where
  "p_send_all sid roomId inputs s =
     foldl (\<lambda>s (now, rnd, text). fst (reached (p_message sid now rnd roomId text s))) s inputs"

text \<open>The hard cap: no room's log is longer than 1000 messages.\<close>

definition log_cap :: "b_state \<Rightarrow> bool" where
  "log_cap s = (\<forall>room rd. rooms_get s room = Some rd \<longrightarrow> length (br_messages rd) \<le> 1000)"

text \<open>The connection is registered under the name \<open>uname\<close> and is a member of the room,
  whose log is \<open>ms\<close>.\<close>

definition can_send :: "b_state \<Rightarrow> jstring \<Rightarrow> jstring \<Rightarrow> jstring \<Rightarrow> b_message list \<Rightarrow> bool" where
  "can_send s sid room uname ms =
     (\<exists>u rd. b_users s sid = Some u \<and> bu_username u = uname \<and> rooms_get s room = Some rd \<and>
             set_has sid (br_users rd) \<and> br_messages rd = ms)"

text \<open>The message records that the persistent server's handlers \<open>message\<close> and
  \<open>file_upload\<close> store for an input of a user named \<open>uname\<close>.\<close>

definition p_stored :: "jstring \<Rightarrow> (nat \<times> rat \<times> jstring) \<Rightarrow> p_message" where
  "p_stored uname i =
     (case i of (now, rnd, text) \<Rightarrow>
        \<lparr>pm_id = p_message_id now rnd, pm_username = uname, pm_body = Text_body text,
         pm_time = now, pm_timestamp = now\<rparr>)"

definition p_stored_file :: "jstring \<Rightarrow> nat \<Rightarrow> rat \<Rightarrow> jstring \<Rightarrow> jstring \<Rightarrow> jstring \<Rightarrow> p_message" where
  "p_stored_file uname now rnd fileData fileName fileType =
     \<lparr>pm_id = p_message_id now rnd, pm_username = uname, pm_body = File_body fileName fileData fileType,
      pm_time = now, pm_timestamp = now\<rparr>"

definition p_can_send :: "p_state \<Rightarrow> jstring \<Rightarrow> jstring \<Rightarrow> jstring \<Rightarrow> bool" where
  "p_can_send s sid roomId uname =
     (\<exists>u. p_users s sid = Some u \<and> pu_username u = uname \<and> p_rooms_get s roomId \<noteq> None)"

text \<open>Two small states for concrete runs: a connection \<open>a\<close>, registered as \<open>u\<close>, in the
  room \<open>r\<close> of the backend server; and the same connection in the room \<open>general\<close> of the
  persistent server.\<close>

definition b_example_reqs :: "(jstring \<times> nat \<times> b_request) list" where
  "b_example_reqs = [(js ''a'', 0, Register_user (Str (js ''u''))), (js ''a'', 0, Join_room (Some (js ''r'')))]"

definition b_example :: b_state where
  "b_example = (case b_run b_example_reqs b_init of Some s \<Rightarrow> s | None \<Rightarrow> b_init)"

definition p_example :: p_state where
  "p_example = fst (reached (p_join_room (js ''a'') (js ''general'') (js ''u'') None p_init))"

text \<open>The connection \<open>a\<close> of the example registers a second time.\<close>

definition b_reregistered :: b_state where
  "b_reregistered = fst (reached (register_user (js ''a'') 5 (Str (js ''u'')) b_example))"

text \<open>The history snapshots that a list of emitted events delivers, each with the
  target it is emitted to: the messages of the \<open>room_history\<close> events (backend
  server), of the \<open>room_joined\<close> events (persistent server).\<close>

definition b_histories :: "b_event list \<Rightarrow> (target \<times> b_message list) list" where
  "b_histories evs =
     concat (map (\<lambda>(t, p). case p of Room_history room ms n joinedAt \<Rightarrow> [(t, ms)] | _ \<Rightarrow> []) evs)"

definition p_histories :: "p_event list \<Rightarrow> (target \<times> p_message list) list" where
  "p_histories evs =
     concat (map (\<lambda>(t, p). case p of Room_joined roomId roomName ms \<Rightarrow> [(t, ms)] | _ \<Rightarrow> []) evs)"

text \<open>Every user's current room is a room of the server (or the empty string, which
  the handlers read as no room).\<close>

definition rooms_known :: "p_state \<Rightarrow> bool" where
  "rooms_known s =
     (\<forall>sid u. p_users s sid = Some u \<longrightarrow> pu_currentRoom u = [] \<or> p_rooms_get s (pu_currentRoom u) \<noteq> None)"

text \<open>The room \<open>rd\<close>, stored under the key \<open>r\<close>, after the block "Leave previous room" has
  run for the connection \<open>sid\<close> in the state \<open>s\<close>: one occurrence of the connection is
  taken out of its current room.\<close>

definition left :: "p_state \<Rightarrow> jstring \<Rightarrow> jstring \<Rightarrow> p_room \<Rightarrow> p_room" where
  "left s sid r rd =
     (if (\<exists>u. p_users s sid = Some u \<and> pu_currentRoom u = r) \<and> r \<noteq> []
      then rd\<lparr>pr_users := remove1 sid (pr_users rd)\<rparr> else rd)"

text \<open>The messages of the \<open>join_error\<close> events among emitted events.\<close>

definition p_join_errors :: "p_event list \<Rightarrow> string list" where
  "p_join_errors evs = concat (map (\<lambda>(t, p). case p of Join_error m \<Rightarrow> [m] | _ \<Rightarrow> []) evs)"

text \<open>The example states after 101 messages (backend server) and 51 messages
  (persistent server) of the connection \<open>a\<close>.\<close>

definition b_example101 :: b_state where
  "b_example101 = send_all (js ''a'') (js ''r'') (replicate 101 (1, js ''x'', js ''hi'')) b_example"

definition p_example51 :: p_state where
  "p_example51 = p_send_all (js ''a'') (js ''general'') (replicate 51 (1, 0, js ''hi'')) p_example"


text \<open>The connection \<open>a\<close> of the persistent example sends two messages within the
  millisecond 5, and one message.\<close>

definition p_burst :: p_state where
  "p_burst = p_send_all (js ''a'') (js ''general'') [(5, 1/2, js ''x''), (5, 1/4, js ''y'')] p_example"

definition p_sent1 :: p_state where
  "p_sent1 = p_send_all (js ''a'') (js ''general'') [(5, 1/2, js ''x'')] p_example"







text \<open>The data directory after a first start without saved data, and after the
  rooms of the state \<open>p_sent1\<close> (one message in \<open>general\<close>) have been saved there.\<close>

definition first_boot :: data_dir where
  "first_boot = snd (loadData \<lparr>dir_exists = False, messagesFile = Missing, roomsFile = Missing\<rparr> default_rooms)"

definition saved_dir :: data_dir where
  "saved_dir = saveData (p_rooms p_sent1) first_boot"

text \<open>A room without the connection \<open>sid\<close>, and the \<open>user_left\<close> event that the disconnect
  handler emits for the room \<open>r\<close> when it starts in the state \<open>s\<close>.\<close>

definition without :: "jstring \<Rightarrow> b_room \<Rightarrow> b_room" where
  "without sid rd = rd\<lparr>br_users := set_delete sid (br_users rd)\<rparr>"

definition left_event :: "jstring \<Rightarrow> nat \<Rightarrow> b_user \<Rightarrow> b_state \<Rightarrow> jstring \<Rightarrow> b_event" where
  "left_event sid now u s r =
     (To_room_except r sid,
      User_left r (bu_username u) sid now (length (set_delete sid (room_members s r))))"

text \<open>The example with a second connection \<open>b\<close> in the room \<open>r\<close> and the connection \<open>a\<close> in the
  rooms \<open>r\<close> and \<open>q\<close>.\<close>

definition b_two_rooms_reqs :: "(jstring \<times> nat \<times> b_request) list" where
  "b_two_rooms_reqs = [(js ''b'', 1, Register_user (Str (js ''v''))), (js ''b'', 1, Join_room (Some (js ''r''))),
                       (js ''a'', 2, Join_room (Some (js ''q'')))]"

definition b_two_rooms :: b_state where
  "b_two_rooms = (case b_run b_two_rooms_reqs b_example of Some s \<Rightarrow> s | None \<Rightarrow> b_example)"

text \<open>The connection \<open>a\<close> of the backend example sends two messages within the
  millisecond 5, and one message.\<close>

definition b_burst :: b_state where
  "b_burst = send_all (js ''a'') (js ''r'') [(5, js ''i'', js ''x''), (5, js ''9'', js ''y'')] b_example"

definition b_sent1 :: b_state where
  "b_sent1 = send_all (js ''a'') (js ''r'') [(5, js ''i'', js ''x'')] b_example"

section \<open>Proofs\<close>

subsection \<open>Strings\<close>

lemma js_eq_iff [simp]: "js a = js b \<longleftrightarrow> a = b"
  by (simp add: js_def inj_def)

lemma js_Nil [simp]: "js [] = []"
  by (simp add: js_def)

lemma js_eq_Nil [simp]: "js a = [] \<longleftrightarrow> a = []"
  by (simp add: js_def)

lemma Nil_eq_js [simp]: "[] = js a \<longleftrightarrow> a = []"
  by (auto simp: js_def)

lemma trim_Nil [simp]: "trim [] = []"
  by (simp add: trim_def)

lemma trim_hi: "trim (js ''hi'') = js ''hi''"
  by (simp add: trim_def is_ws_def js_def)

lemma trim_letter:
  "trim (js ''q'') = js ''q''" "trim (js ''r'') = js ''r''" "trim (js ''u'') = js ''u''"
  "trim (js ''v'') = js ''v''" "trim (js ''x'') = js ''x''" "trim (js ''y'') = js ''y''"
  by (simp_all add: trim_def is_ws_def js_def)


subsection \<open>The backend server: state access and the log cap\<close>

lemma rooms_get_set [simp]:
  "rooms_get (rooms_set r rd s) r' = (if r' = r then Some rd else rooms_get s r')"
  by (simp add: rooms_get_def rooms_set_def update_conv')

lemma rooms_get_users_upd [simp]: "rooms_get (s\<lparr>b_users := us\<rparr>) r = rooms_get s r"
  by (simp add: rooms_get_def)

lemma b_users_rooms_set [simp]: "b_users (rooms_set r rd s) = b_users s"
  by (simp add: rooms_set_def)

lemma length_push_trim_le: "length ms \<le> 1000 \<Longrightarrow> length (push_trim m ms) \<le> 1000"
  by (simp add: push_trim_def slice_last_def Let_def)

lemma push_trim_below: "length ms < 1000 \<Longrightarrow> push_trim m ms = ms @ [m]"
  by (simp add: push_trim_def Let_def)

lemma push_trim_full: "length ms = 1000 \<Longrightarrow> push_trim m ms = drop 501 ms @ [m]"
  by (simp add: push_trim_def Let_def slice_last_def)


lemma log_cap_register: "log_cap s \<Longrightarrow> log_cap (fst (reached (register_user sid now u s)))"
  by (simp add: log_cap_def register_user_def Let_def split: payload.splits)

lemma log_cap_join: "log_cap s \<Longrightarrow> log_cap (fst (join_room sid now rn s))"
  by (auto simp: log_cap_def join_room_def Let_def split: option.splits if_splits)

lemma log_cap_send: "log_cap s \<Longrightarrow> log_cap (fst (send_message sid now rnd room m s))"
  by (auto simp: log_cap_def send_message_def Let_def length_push_trim_le split: option.splits if_splits)

lemma log_cap_leave: "log_cap s \<Longrightarrow> log_cap (fst (leave_room sid now rn s))"
  by (auto simp: log_cap_def leave_room_def Let_def split: option.splits if_splits)

lemma log_cap_disconnect_room:
  "log_cap (fst acc) \<Longrightarrow> log_cap (fst (disconnect_room sid now u rn acc))"
  by (cases acc) (auto simp: log_cap_def disconnect_room_def Let_def split: option.splits if_splits)

lemma log_cap_foldl:
  "log_cap (fst acc) \<Longrightarrow> log_cap (fst (foldl (\<lambda>acc rn. disconnect_room sid now u rn acc) acc rs))"
proof (induction rs arbitrary: acc)
  case Nil
  then show ?case by simp
next
  case (Cons r rs)
  from Cons.prems have "log_cap (fst (disconnect_room sid now u r acc))"
    by (rule log_cap_disconnect_room)
  then show ?case by (simp add: Cons.IH)
qed

lemma log_cap_users_upd: "log_cap (s\<lparr>b_users := us\<rparr>) = log_cap s"
  by (simp add: log_cap_def)

lemma log_cap_disconnect: "log_cap s \<Longrightarrow> log_cap (fst (disconnect sid now s))"
proof -
  assume a: "log_cap s"
  show ?thesis
  proof (cases "b_users s sid")
    case None
    with a show ?thesis by (simp add: disconnect_def log_cap_users_upd)
  next
    case (Some u)
    have "log_cap (fst (foldl (\<lambda>acc rn. disconnect_room sid now u rn acc) (s, []) (bu_rooms u)))"
      using a by (intro log_cap_foldl) simp
    with Some show ?thesis
      by (simp add: disconnect_def log_cap_users_upd case_prod_beta)
  qed
qed

lemma log_cap_step: "log_cap s \<Longrightarrow> log_cap (fst (reached (b_step sid now rq s)))"
  by (cases rq) (simp_all add: log_cap_register log_cap_join log_cap_send log_cap_leave log_cap_disconnect get_rooms_def)

lemma log_cap_run: "log_cap s \<Longrightarrow> b_run reqs s = Some s' \<Longrightarrow> log_cap s'"
proof (induction reqs arbitrary: s)
  case Nil
  then show ?case by simp
next
  case (Cons rq reqs)
  obtain sid now r where rq: "rq = (sid, now, r)" by (cases rq)
  from Cons.prems(2) obtain s1 evs where s1: "b_step sid now r s = Returns (s1, evs)" "b_run reqs s1 = Some s'"
    by (auto simp: rq split: outcome.splits)
  from log_cap_step[OF Cons.prems(1), of sid now r] s1(1) have "log_cap s1" by simp
  from Cons.IH[OF this s1(2)] show ?case .
qed

lemma log_cap_init: "log_cap b_init"
  by (simp add: log_cap_def b_init_def rooms_get_def)

subsection \<open>Consecutive sends\<close>

lemma send_message_ok:
  assumes "b_users s sid = Some u" and "rooms_get s room = Some rd"
    and "set_has sid (br_users rd)" and "room \<noteq> []" and "trim text \<noteq> []"
  shows "send_message sid now rnd room (Some text) s =
          ((rooms_set room (rd\<lparr>br_messages := push_trim (stored sid (bu_username u) room (now, rnd, text)) (br_messages rd)\<rparr>) s)
             \<lparr>b_users := (b_users s)(sid \<mapsto> u\<lparr>bu_lastActivity := now\<rparr>)\<rparr>,
           [(To_room room, Receive_message (stored sid (bu_username u) room (now, rnd, text)))])"
proof -
  from assms(5) have "text \<noteq> []" by auto
  with assms show ?thesis
    by (simp add: send_message_def Let_def stored_def b_messageData_def)
qed

lemma can_send_step:
  assumes "can_send s sid room uname ms" and "room \<noteq> []" and "trim text \<noteq> []"
  shows "can_send (fst (send_message sid now rnd room (Some text) s)) sid room uname
           (push_trim (stored sid uname room (now, rnd, text)) ms)"
proof -
  from assms(1) obtain u rd where h: "b_users s sid = Some u" "bu_username u = uname"
    "rooms_get s room = Some rd" "set_has sid (br_users rd)" "br_messages rd = ms"
    unfolding can_send_def by blast
  show ?thesis
    unfolding send_message_ok[OF h(1) h(3) h(4) assms(2) assms(3)]
    using h by (simp add: can_send_def)
qed

lemma can_send_all:
  assumes "room \<noteq> []"
  shows "can_send s sid room uname ms \<Longrightarrow> \<forall>i\<in>set inputs. trim (snd (snd i)) \<noteq> [] \<Longrightarrow>
     can_send (send_all sid room inputs s) sid room uname
       (foldl (\<lambda>ms i. push_trim (stored sid uname room i) ms) ms inputs)"
proof (induction inputs arbitrary: s ms)
  case Nil
  then show ?case by (simp add: send_all_def)
next
  case (Cons i inputs)
  obtain now rnd msg where i: "i = (now, rnd, msg)" by (cases i)
  from Cons.prems(2) i have t: "trim msg \<noteq> []" by simp
  have "can_send (fst (send_message sid now rnd room (Some msg) s)) sid room uname
           (push_trim (stored sid uname room (now, rnd, msg)) ms)"
    by (rule can_send_step[OF Cons.prems(1) assms t])
  from Cons.IH[OF this] Cons.prems(2) show ?case
    by (simp add: send_all_def i)
qed

lemma pushes_below:
  "length ms + length xs \<le> 1000 \<Longrightarrow> foldl (\<lambda>ms x. push_trim (f x) ms) ms xs = ms @ map f xs"
proof (induction xs arbitrary: ms)
  case Nil
  then show ?case by simp
next
  case (Cons x xs)
  from Cons.prems have "push_trim (f x) ms = ms @ [f x]" by (simp add: push_trim_below)
  moreover from Cons.prems have "length (ms @ [f x]) + length xs \<le> 1000" by simp
  ultimately show ?case using Cons.IH[of "ms @ [f x]"] by simp
qed

lemma pushes_past_cap:
  assumes "1001 \<le> length xs" and "length xs \<le> 1501"
  shows "foldl (\<lambda>ms x. push_trim (f x) ms) [] xs = map f (drop 501 xs)"
proof -
  let ?g = "\<lambda>ms x. push_trim (f x) ms"
  have xs: "xs = take 1000 xs @ xs ! 1000 # drop 1001 xs"
    using assms(1)
    by (metis Cons_nth_drop_Suc append_take_drop_id numeral_eq_Suc eval_nat_numeral(3) Suc_le_lessD)
  have l: "length (take 1000 xs) = 1000" using assms(1) by simp
  have a: "foldl ?g [] (take 1000 xs) = map f (take 1000 xs)"
    using pushes_below[of "[]" "take 1000 xs" f] l by simp
  have b: "?g (map f (take 1000 xs)) (xs ! 1000) = drop 501 (map f (take 1000 xs)) @ [f (xs ! 1000)]"
    using l by (simp add: push_trim_full)
  have c: "foldl ?g (drop 501 (map f (take 1000 xs)) @ [f (xs ! 1000)]) (drop 1001 xs)
           = (drop 501 (map f (take 1000 xs)) @ [f (xs ! 1000)]) @ map f (drop 1001 xs)"
    using assms l by (intro pushes_below) simp
  have "foldl ?g [] xs = foldl ?g [] (take 1000 xs @ xs ! 1000 # drop 1001 xs)"
    using xs by simp
  also have "\<dots> = (drop 501 (map f (take 1000 xs)) @ [f (xs ! 1000)]) @ map f (drop 1001 xs)"
    by (simp only: foldl_append foldl_Cons a b c)
  also have "\<dots> = map f (drop 501 (take 1000 xs @ xs ! 1000 # drop 1001 xs))"
    using l by (simp add: drop_map)
  also have "\<dots> = map f (drop 501 xs)" using xs by simp
  finally show ?thesis .
qed

subsection \<open>The persistent server: state access and sends\<close>

lemma p_rooms_get_set [simp]:
  "p_rooms_get (p_rooms_set r rd s) r' = (if r' = r then Some rd else p_rooms_get s r')"
  by (simp add: p_rooms_get_def p_rooms_set_def update_conv')

lemma p_rooms_get_users_upd [simp]: "p_rooms_get (s\<lparr>p_users := us\<rparr>) r = p_rooms_get s r"
  by (simp add: p_rooms_get_def)

lemma p_users_rooms_set [simp]: "p_users (p_rooms_set r rd s) = p_users s"
  by (simp add: p_rooms_set_def)

lemma p_rooms_look_Own [simp]: "p_rooms_get s r = Some rd \<Longrightarrow> p_rooms_look s r = Own rd"
  by (simp add: p_rooms_look_def)


lemma p_message_ok:
  assumes "p_rooms_get s roomId = Some room" and "p_users s sid = Some u"
  shows "p_message sid now rnd roomId msg s =
          Returns (p_rooms_set roomId (room\<lparr>pr_messages := pr_messages room @ [p_stored (pu_username u) (now, rnd, msg)]\<rparr>) s,
                   [(To_room roomId, Message (p_stored (pu_username u) (now, rnd, msg)))])"
  using assms by (simp add: p_message_def p_push_def p_stored_def Let_def)

lemma p_can_send_step:
  assumes "p_can_send s sid roomId uname"
  shows "p_can_send (fst (reached (p_message sid now rnd roomId msg s))) sid roomId uname
         \<and> p_room_log (fst (reached (p_message sid now rnd roomId msg s))) roomId
             = p_room_log s roomId @ [p_stored uname (now, rnd, msg)]"
proof -
  from assms obtain u room where h: "p_users s sid = Some u" "pu_username u = uname"
    "p_rooms_get s roomId = Some room"
    unfolding p_can_send_def by blast
  show ?thesis
    unfolding p_message_ok[OF h(3) h(1)]
    using h by (simp add: p_can_send_def p_room_log_def)
qed

lemma p_send_all_log:
  "p_can_send s sid roomId uname \<Longrightarrow>
     p_room_log (p_send_all sid roomId inputs s) roomId = p_room_log s roomId @ map (p_stored uname) inputs"
proof (induction inputs arbitrary: s)
  case Nil
  then show ?case by (simp add: p_send_all_def)
next
  case (Cons i inputs)
  obtain now rnd msg where i: "i = (now, rnd, msg)" by (cases i)
  note st = p_can_send_step[OF Cons.prems, of now rnd msg]
  from Cons.IH[OF conjunct1[OF st]] conjunct2[OF st] show ?case
    by (simp add: p_send_all_def i)
qed

subsection \<open>The example states\<close>

lemma b_example_run: "b_run b_example_reqs b_init = Some b_example"
  by (simp add: b_example_def b_example_reqs_def register_user_def Let_def split: prod.splits)

lemma b_example_user:
  "b_users b_example (js ''a'') = Some \<lparr>bu_username = js ''u'', bu_socketId = js ''a'', bu_rooms = [js ''r''],
                     bu_connectedAt = 0, bu_lastActivity = 0\<rparr>"
  by (simp add: b_example_def b_example_reqs_def b_init_def register_user_def join_room_def trim_letter
      set_add_def Let_def rooms_get_def rooms_set_def)

lemma b_example_room:
  "rooms_get b_example (js ''r'') = Some \<lparr>br_name = js ''r'', br_users = [js ''a''], br_messages = [], br_createdAt = 0\<rparr>"
  by (simp add: b_example_def b_example_reqs_def b_init_def register_user_def join_room_def trim_letter
      set_add_def Let_def rooms_get_def rooms_set_def)

lemma p_init_look: "p_rooms_look p_init (js ''general'') = Own \<lparr>pr_name = js ''General Chat'', pr_password = None,
      pr_creator = js ''system'', pr_users = [], pr_messages = []\<rparr>"
  by (simp add: p_rooms_look_def p_init_def default_rooms_def p_rooms_get_def)

lemma p_example_user:
  "p_users p_example (js ''a'') = Some \<lparr>pu_username = js ''u'', pu_currentRoom = js ''general''\<rparr>"
  by (simp add: p_example_def p_join_room_def p_init_look check_password_def leave_previous_def Let_def)
     (simp add: p_init_def default_rooms_def p_rooms_get_def p_rooms_set_def)

lemma p_example_room:
  "p_rooms_get p_example (js ''general'') = Some \<lparr>pr_name = js ''General Chat'', pr_password = None,
      pr_creator = js ''system'', pr_users = [js ''a''], pr_messages = []\<rparr>"
  by (simp add: p_example_def p_join_room_def p_init_look check_password_def leave_previous_def Let_def)
     (simp add: p_init_def default_rooms_def p_rooms_get_def p_rooms_set_def)

subsection \<open>C1: the log cap\<close>

text \<open>
  C1 (as amended). In the backend server the log of no room is ever longer than
  1000 messages, whatever requests the server has processed since it started.
  When a member sends between 1001 and 1501 messages in a row, none of them
  empty after trimming, to a room whose log was empty, the log holds exactly
  the messages of all inputs but the first 501, in order: 500 messages after
  the 1001st send (the most recent 500), 501 after the 1002nd, and no further
  trim before the log again exceeds 1000. The \<open>message\<close> handler of the
  persistent server never trims: its log is the old log followed by
  everything sent.
\<close>

theorem backend_log_cap:
  "(\<forall>s'. b_run reqs b_init = Some s' \<longrightarrow>
       (\<forall>r rd. rooms_get s' r = Some rd \<longrightarrow> length (br_messages rd) \<le> 1000))
   \<and> (b_users s sid = Some u \<and> rooms_get s room = Some rd \<and> set_has sid (br_users rd) \<and>
      br_messages rd = [] \<and> room \<noteq> [] \<and> (\<forall>i\<in>set inputs. trim (snd (snd i)) \<noteq> []) \<and>
      1001 \<le> length inputs \<and> length inputs \<le> 1501
      \<longrightarrow> room_log (send_all sid room inputs s) room
            = map (stored sid (bu_username u) room) (drop 501 inputs)
        \<and> length (room_log (send_all sid room inputs s) room) = length inputs - 501)
   \<and> (p_users ps psid = Some pu \<and> p_rooms_get ps roomId = Some prd
      \<longrightarrow> p_room_log (p_send_all psid roomId pinputs ps) roomId
            = pr_messages prd @ map (p_stored (pu_username pu)) pinputs)"
proof (intro conjI impI allI)
  fix s' r rd assume "b_run reqs b_init = Some s'" and "rooms_get s' r = Some rd"
  with log_cap_run[OF log_cap_init, of reqs s'] show "length (br_messages rd) \<le> 1000"
    by (simp add: log_cap_def)
next
  assume h: "b_users s sid = Some u \<and> rooms_get s room = Some rd \<and> set_has sid (br_users rd) \<and>
      br_messages rd = [] \<and> room \<noteq> [] \<and> (\<forall>i\<in>set inputs. trim (snd (snd i)) \<noteq> []) \<and>
      1001 \<le> length inputs \<and> length inputs \<le> 1501"
  then have cs: "can_send s sid room (bu_username u) []" by (auto simp: can_send_def)
  from h have "can_send (send_all sid room inputs s) sid room (bu_username u)
       (foldl (\<lambda>ms i. push_trim (stored sid (bu_username u) room i) ms) [] inputs)"
    by (intro can_send_all cs) auto
  then have "room_log (send_all sid room inputs s) room
       = foldl (\<lambda>ms i. push_trim (stored sid (bu_username u) room i) ms) [] inputs"
    by (auto simp: can_send_def room_log_def)
  also have "\<dots> = map (stored sid (bu_username u) room) (drop 501 inputs)"
    using h by (intro pushes_past_cap) auto
  finally show l: "room_log (send_all sid room inputs s) room
            = map (stored sid (bu_username u) room) (drop 501 inputs)" .
  show "length (room_log (send_all sid room inputs s) room) = length inputs - 501"
    by (simp add: l)
next
  assume h: "p_users ps psid = Some pu \<and> p_rooms_get ps roomId = Some prd"
  then have "p_can_send ps psid roomId (pu_username pu)" by (auto simp: p_can_send_def)
  from p_send_all_log[OF this, of pinputs] h
  show "p_room_log (p_send_all psid roomId pinputs ps) roomId
            = pr_messages prd @ map (p_stored (pu_username pu)) pinputs"
    by (simp add: p_room_log_def)
qed

theorem backend_log_cap_witness:
  "length (room_log b_example (js ''r'')) \<le> 1000
   \<and> room_log (send_all (js ''a'') (js ''r'') (replicate 1001 (1, js ''x'', js ''hi'')) b_example) (js ''r'')
       = replicate 500 (stored (js ''a'') (js ''u'') (js ''r'') (1, js ''x'', js ''hi''))
   \<and> length (room_log (send_all (js ''a'') (js ''r'') (replicate 1001 (1, js ''x'', js ''hi'')) b_example) (js ''r'')) = 500
   \<and> length (room_log (send_all (js ''a'') (js ''r'') (replicate 1002 (1, js ''x'', js ''hi'')) b_example) (js ''r'')) = 501
   \<and> length (p_room_log (p_send_all (js ''a'') (js ''general'') (replicate 1001 (1, 0, js ''hi'')) p_example) (js ''general'')) = 1001"
proof -
  let ?u = "\<lparr>bu_username = js ''u'', bu_socketId = js ''a'', bu_rooms = [js ''r''],
             bu_connectedAt = 0, bu_lastActivity = 0\<rparr>"
  let ?rd = "\<lparr>br_name = js ''r'', br_users = [js ''a''], br_messages = [], br_createdAt = 0\<rparr>"
  let ?pu = "\<lparr>pu_username = js ''u'', pu_currentRoom = js ''general''\<rparr>"
  let ?prd = "\<lparr>pr_name = js ''General Chat'', pr_password = None,
      pr_creator = js ''system'', pr_users = [js ''a''], pr_messages = []\<rparr>"
  note t = backend_log_cap[where reqs = b_example_reqs and s = b_example and sid = "js ''a''" and room = "js ''r''"
      and u = ?u and rd = ?rd and ps = p_example and psid = "js ''a''" and pu = ?pu and prd = ?prd
      and roomId = "js ''general''" and pinputs = "replicate 1001 (1, 0, js ''hi'')"]
  have a: "length (room_log b_example (js ''r'')) \<le> 1000"
    using t[where inputs = "[]"] b_example_room b_example_run
    by (simp add: room_log_def)
  have b: "room_log (send_all (js ''a'') (js ''r'') (replicate 1001 (1, js ''x'', js ''hi'')) b_example) (js ''r'')
       = replicate 500 (stored (js ''a'') (js ''u'') (js ''r'') (1, js ''x'', js ''hi''))
     \<and> length (room_log (send_all (js ''a'') (js ''r'') (replicate 1001 (1, js ''x'', js ''hi'')) b_example) (js ''r'')) = 500"
    using t[where inputs = "replicate 1001 (1, js ''x'', js ''hi'')"] b_example_room b_example_user
    by (simp add: set_has_def trim_hi)
  have c: "length (room_log (send_all (js ''a'') (js ''r'') (replicate 1002 (1, js ''x'', js ''hi'')) b_example) (js ''r'')) = 501"
    using t[where inputs = "replicate 1002 (1, js ''x'', js ''hi'')"] b_example_room b_example_user
    by (simp add: set_has_def trim_hi)
  have d: "length (p_room_log (p_send_all (js ''a'') (js ''general'') (replicate 1001 (1, 0, js ''hi'')) p_example) (js ''general'')) = 1001"
    using t[where inputs = "[]"] p_example_user p_example_room by simp
  from a b c d show ?thesis by blast
qed

theorem persistent_log_exceeds_cap:
  "\<not> length (p_room_log (p_send_all (js ''a'') (js ''general'') (replicate 1001 (1, 0, js ''hi'')) p_example) (js ''general'')) \<le> 1000"
proof -
  have "p_can_send p_example (js ''a'') (js ''general'') (js ''u'')"
    by (simp add: p_can_send_def p_example_user p_example_room)
  from p_send_all_log[OF this, of "replicate 1001 (1, 0, js ''hi'')"] show ?thesis
    by (simp add: p_room_log_def p_example_room)
qed

subsection \<open>C10: registering again\<close>

lemma register_user_rooms [simp]: "b_rooms (fst (reached (register_user sid now username s))) = b_rooms s"
  by (simp add: register_user_def Let_def split: payload.splits)

lemma register_user_returns:
  "username \<noteq> Not_string \<Longrightarrow>
     \<exists>s1 evs u. register_user sid now username s = Returns (s1, evs) \<and>
        b_users s1 sid = Some u \<and> bu_rooms u = [] \<and> b_rooms s1 = b_rooms s"
  by (cases username) (simp_all add: register_user_def Let_def)

lemma disconnect_no_rooms:
  assumes "b_users s sid = Some u" and "bu_rooms u = []"
  shows "disconnect sid now s = (s\<lparr>b_users := (b_users s)(sid := None)\<rparr>, [])"
  using assms by (simp add: disconnect_def)

text \<open>
  C10 (as amended). \<open>register_user\<close> with a name that is a string or is falsy,
  on a connection registered before or not, stores a user record whose set of
  rooms is empty and changes no room, so the connection stays in the member
  set of every room it had joined. A disconnect that follows walks through the
  empty set of rooms only: it changes no room either, the connection is still
  listed as a member, and no \<open>user_left\<close> (no event at all) is emitted. With a
  truthy name that is not a string the handler throws at its first statement:
  nothing is stored and nothing is emitted.
\<close>

theorem reregister_orphans_membership:
  "(username \<noteq> Not_string \<longrightarrow>
      (\<exists>s1 evs. register_user sid now username s = Returns (s1, evs)
         \<and> (\<exists>u. b_users s1 sid = Some u \<and> bu_rooms u = [])
         \<and> b_rooms s1 = b_rooms s
         \<and> b_rooms (fst (disconnect sid now' s1)) = b_rooms s
         \<and> snd (disconnect sid now' s1) = []
         \<and> (sid \<in> set (room_members s room) \<longrightarrow>
              sid \<in> set (room_members s1 room) \<and>
              sid \<in> set (room_members (fst (disconnect sid now' s1)) room))))
   \<and> register_user sid now Not_string s = Throws (s, [])"
proof (intro conjI impI)
  assume "username \<noteq> Not_string"
  from register_user_returns[OF this, of sid now s] obtain s1 evs u where
    r: "register_user sid now username s = Returns (s1, evs)" and
    u: "b_users s1 sid = Some u" "bu_rooms u = []" and
    b: "b_rooms s1 = b_rooms s"
    by blast
  have d: "disconnect sid now' s1 = (s1\<lparr>b_users := (b_users s1)(sid := None)\<rparr>, [])"
    by (rule disconnect_no_rooms[OF u])
  have m1: "room_members s1 room = room_members s room"
    by (simp add: room_members_def rooms_get_def b)
  have m2: "room_members (fst (disconnect sid now' s1)) room = room_members s room"
    by (simp add: d room_members_def rooms_get_def b)
  from r u b d m1 m2
  show "\<exists>s1 evs. register_user sid now username s = Returns (s1, evs)
         \<and> (\<exists>u. b_users s1 sid = Some u \<and> bu_rooms u = [])
         \<and> b_rooms s1 = b_rooms s
         \<and> b_rooms (fst (disconnect sid now' s1)) = b_rooms s
         \<and> snd (disconnect sid now' s1) = []
         \<and> (sid \<in> set (room_members s room) \<longrightarrow>
              sid \<in> set (room_members s1 room) \<and>
              sid \<in> set (room_members (fst (disconnect sid now' s1)) room))"
    by auto
next
  show "register_user sid now Not_string s = Throws (s, [])"
    by (simp add: register_user_def)
qed

theorem reregister_orphans_membership_witness:
  "js ''a'' \<in> set (room_members b_example (js ''r''))
   \<and> (\<exists>s1 evs. register_user (js ''a'') 5 (Str (js ''u'')) b_example = Returns (s1, evs)
         \<and> js ''a'' \<in> set (room_members (fst (disconnect (js ''a'') 9 s1)) (js ''r''))
         \<and> snd (disconnect (js ''a'') 9 s1) = [])"
proof -
  have m: "js ''a'' \<in> set (room_members b_example (js ''r''))"
    by (simp add: room_members_def b_example_room)
  from reregister_orphans_membership[of "Str (js ''u'')" "js ''a''" 5 b_example 9 "js ''r''"] m
  show ?thesis by auto
qed

text \<open>
  The connection \<open>a\<close> of the example, a member of the room \<open>r\<close>, registers again with
  a name that is a number: the handler throws, the user record still lists
  \<open>r\<close>, and the disconnect handler, run in the state that is left, takes \<open>a\<close> out of
  \<open>r\<close> and emits \<open>user_left\<close>.
\<close>

theorem register_non_string_keeps_record:
  "register_user (js ''a'') 5 Not_string b_example = Throws (b_example, [])
   \<and> map_option bu_rooms (b_users b_example (js ''a'')) = Some [js ''r'']
   \<and> snd (disconnect (js ''a'') 9 b_example)
       = [(To_room_except (js ''r'') (js ''a''), User_left (js ''r'') (js ''u'') (js ''a'') 9 0)]
   \<and> room_members (fst (disconnect (js ''a'') 9 b_example)) (js ''r'') = []"
  by (simp add: register_user_def b_example_user disconnect_def disconnect_room_def b_example_room
      Let_def set_delete_def room_members_def)

subsection \<open>C7: creating a room that exists\<close>

lemma p_init_general:
  "p_rooms_get p_init (js ''general'') = Some \<lparr>pr_name = js ''General Chat'', pr_password = None,
      pr_creator = js ''system'', pr_users = [], pr_messages = []\<rparr>"
  by (simp add: p_init_def default_rooms_def p_rooms_get_def)

text \<open>
  C7. \<open>create_room\<close> with an id that is present emits \<open>create_error\<close> "Room already
  exists" to the caller and nothing else, and returns the state as it was: the
  name, password hash, creator, members and log of the existing room, and
  every other room, are unchanged.
\<close>

theorem create_existing_room_rejected:
  "p_rooms_get s roomId = Some room \<Longrightarrow>
     p_create_room sid salt roomId roomName password creator s
       = Returns (s, [(To_socket sid, Create_error ''Room already exists'')])"
  by (simp add: p_create_room_def)

theorem create_existing_room_rejected_witness:
  "p_create_room (js ''a'') 7 (js ''general'') (js ''Mine'') (Str (js ''secret'')) (js ''mallory'') p_init
       = Returns (p_init, [(To_socket (js ''a''), Create_error ''Room already exists'')])"
  using create_existing_room_rejected[OF p_init_general] .

subsection \<open>C3: disconnecting after a second registration\<close>

text \<open>
  C3, at the input where the code departs from it. The connection \<open>a\<close> registers,
  joins the room \<open>r\<close>, registers again and disconnects. The disconnect handler
  emits no \<open>user_left\<close>, and \<open>a\<close> is still in the member set of \<open>r\<close> although
  it is gone from the registry.
\<close>

theorem disconnect_after_reregister_keeps_member:
  "room_members b_example (js ''r'') = [js ''a'']
   \<and> snd (disconnect (js ''a'') 9 b_reregistered) = []
   \<and> room_members (fst (disconnect (js ''a'') 9 b_reregistered)) (js ''r'') = [js ''a'']
   \<and> b_users (fst (disconnect (js ''a'') 9 b_reregistered)) (js ''a'') = None"
proof -
  have u: "b_users b_reregistered (js ''a'') = Some \<lparr>bu_username = js ''u'', bu_socketId = js ''a'', bu_rooms = [],
                     bu_connectedAt = 5, bu_lastActivity = 5\<rparr>"
    by (simp add: b_reregistered_def register_user_def Let_def trim_letter)
  have d: "disconnect (js ''a'') 9 b_reregistered
            = (b_reregistered\<lparr>b_users := (b_users b_reregistered)(js ''a'' := None)\<rparr>, [])"
    by (rule disconnect_no_rooms[OF u]) simp
  have r: "rooms_get b_reregistered (js ''r'') = rooms_get b_example (js ''r'')"
    by (simp add: b_reregistered_def rooms_get_def)
  show ?thesis
    by (simp add: d room_members_def r b_example_room)
qed

subsection \<open>Joining a room\<close>

lemma join_room_ok:
  assumes "b_users s sid = Some u" and "trim rn \<noteq> []"
  shows "join_room sid now (Some rn) s =
    (let roomData = (case rooms_get s (trim rn) of
                       None \<Rightarrow> \<lparr>br_name = trim rn, br_users = [], br_messages = [], br_createdAt = now\<rparr>
                     | Some rd \<Rightarrow> rd);
         roomData' = roomData\<lparr>br_users := set_add sid (br_users roomData)\<rparr>;
         user' = u\<lparr>bu_rooms := set_add (trim rn) (bu_rooms u), bu_lastActivity := now\<rparr>
     in ((rooms_set (trim rn) roomData' s)\<lparr>b_users := (b_users s)(sid \<mapsto> user')\<rparr>,
         [(To_socket sid, Room_history (trim rn) (slice_last 100 (br_messages roomData'))
                            (length (br_users roomData')) now),
          (To_room_except (trim rn) sid,
             User_joined (trim rn) (bu_username user') sid now (length (br_users roomData')))]))"
  using assms by (simp add: join_room_def Let_def)

lemma set_set_add [simp]: "set (set_add x xs) = insert x (set xs)"
  by (auto simp: set_add_def)


lemma join_room_log:
  assumes "b_users s sid = Some u" and "trim rn \<noteq> []"
  shows "room_log (fst (join_room sid now (Some rn) s)) a = room_log s a"
  unfolding join_room_ok[OF assms]
  by (simp add: Let_def room_log_def split: option.splits)

lemma join_room_history:
  assumes "b_users s sid = Some u" and "trim rn \<noteq> []"
  shows "b_histories (snd (join_room sid now (Some rn) s))
           = [(To_socket sid, slice_last 100 (room_log s (trim rn)))]"
  unfolding join_room_ok[OF assms]
  by (simp add: Let_def room_log_def b_histories_def split: option.splits)

lemma join_room_user:
  assumes "b_users s sid = Some u" and "trim rn \<noteq> []"
  shows "b_users (fst (join_room sid now (Some rn) s)) sid
           = Some (u\<lparr>bu_rooms := set_add (trim rn) (bu_rooms u), bu_lastActivity := now\<rparr>)"
  unfolding join_room_ok[OF assms]
  by (simp add: Let_def)

lemma map_left_other:
  "\<forall>u. p_users s sid = Some u \<longrightarrow> pu_currentRoom u \<noteq> r \<or> r = [] \<Longrightarrow> map_option (left s sid r) x = x"
  by (cases x) (auto simp: left_def)

lemma left_not_member: "sid \<notin> set (pr_users rd) \<Longrightarrow> left s sid r rd = rd"
  by (simp add: left_def remove1_idem)

lemma leave_previous_ok:
  assumes "rooms_known s"
  shows "\<exists>s1 evs. leave_previous sid s = Some (s1, evs) \<and> p_users s1 = p_users s \<and>
           p_histories evs = [] \<and> p_join_errors evs = [] \<and>
           (\<forall>r. p_rooms_get s1 r = map_option (left s sid r) (p_rooms_get s r))"
proof (cases "p_users s sid")
  case None
  then have "leave_previous sid s = Some (s, [])" by (simp add: leave_previous_def)
  moreover from None have "\<forall>r. p_rooms_get s r = map_option (left s sid r) (p_rooms_get s r)"
    by (simp add: map_left_other)
  ultimately show ?thesis by (simp add: p_join_errors_def p_histories_def)
next
  case (Some u)
  show ?thesis
  proof (cases "pu_currentRoom u = []")
    case True
    with Some have "leave_previous sid s = Some (s, [])" by (simp add: leave_previous_def)
    moreover from Some True have "\<forall>r. p_rooms_get s r = map_option (left s sid r) (p_rooms_get s r)"
      by (simp add: map_left_other)
    ultimately show ?thesis by (simp add: p_join_errors_def p_histories_def)
  next
    case False
    with assms Some obtain old where old: "p_rooms_get s (pu_currentRoom u) = Some old"
      unfolding rooms_known_def by blast
    show ?thesis
    proof (cases "sid \<in> set (pr_users old)")
      case True
      let ?s1 = "p_rooms_set (pu_currentRoom u) (old\<lparr>pr_users := remove1 sid (pr_users old)\<rparr>) s"
      from Some False old True have "leave_previous sid s =
         Some (?s1, [(To_room (pu_currentRoom u), P_user_left (pu_username u) (pu_currentRoom u)),
                     (To_room (pu_currentRoom u),
                        Room_update (pu_currentRoom u) (length (remove1 sid (pr_users old))) None)])"
        by (simp add: leave_previous_def Let_def)
      moreover have "\<forall>r. p_rooms_get ?s1 r = map_option (left s sid r) (p_rooms_get s r)"
      proof
        fix r
        show "p_rooms_get ?s1 r = map_option (left s sid r) (p_rooms_get s r)"
        proof (cases "r = pu_currentRoom u")
          case True
          with Some False old show ?thesis by (simp add: left_def)
        next
          case r: False
          with Some have "map_option (left s sid r) (p_rooms_get s r) = p_rooms_get s r"
            by (intro map_left_other) auto
          with r show ?thesis by simp
        qed
      qed
      ultimately show ?thesis by (simp add: p_join_errors_def p_histories_def)
    next
      case n: False
      from Some False old n have "leave_previous sid s = Some (s, [])"
        by (simp add: leave_previous_def)
      moreover have "\<forall>r. p_rooms_get s r = map_option (left s sid r) (p_rooms_get s r)"
      proof
        fix r
        show "p_rooms_get s r = map_option (left s sid r) (p_rooms_get s r)"
        proof (cases "r = pu_currentRoom u")
          case True
          with old n show ?thesis by (simp add: left_not_member)
        next
          case r: False
          with Some have "map_option (left s sid r) (p_rooms_get s r) = p_rooms_get s r"
            by (intro map_left_other) auto
          then show ?thesis by simp
        qed
      qed
      ultimately show ?thesis by (simp add: p_join_errors_def p_histories_def)
    qed
  qed
qed

lemma p_join_room_ok:
  assumes "p_rooms_get s b = Some rb" and "check_password rb password = None" and "rooms_known s"
  shows "\<exists>s' evs. p_join_room sid b username password s = Returns (s', evs)
           \<and> p_histories evs = [(To_socket sid, slice_last 50 (pr_messages rb))]
           \<and> (To_socket sid, Room_joined b (pr_name rb) (slice_last 50 (pr_messages rb))) \<in> set evs
           \<and> p_join_errors evs = []
           \<and> p_users s' = (p_users s)(sid \<mapsto> \<lparr>pu_username = username, pu_currentRoom = b\<rparr>)
           \<and> (\<forall>r. p_rooms_get s' r =
                 (if r = b then Some ((left s sid b rb)\<lparr>pr_users := pr_users (left s sid b rb) @ [sid]\<rparr>)
                  else map_option (left s sid r) (p_rooms_get s r)))"
proof -
  from leave_previous_ok[OF assms(3), of sid] obtain s1 evs where
    l: "leave_previous sid s = Some (s1, evs)" "p_users s1 = p_users s" "p_histories evs = []"
       "p_join_errors evs = []"
       "\<forall>r. p_rooms_get s1 r = map_option (left s sid r) (p_rooms_get s r)"
    by blast
  have m: "pr_messages (left s sid b rb) = pr_messages rb" "pr_name (left s sid b rb) = pr_name rb"
    by (simp_all add: left_def)
  show ?thesis
    using assms(1,2) l m
    by (auto simp: p_join_room_def Let_def p_histories_def p_join_errors_def)
qed


lemma p_send_all_state:
  assumes "p_users s sid = Some u" and "p_rooms_get s roomId = Some room"
  shows "p_users (p_send_all sid roomId inputs s) = p_users s \<and>
         (\<forall>r. p_rooms_get (p_send_all sid roomId inputs s) r =
                (if r = roomId
                 then Some (room\<lparr>pr_messages := pr_messages room @ map (p_stored (pu_username u)) inputs\<rparr>)
                 else p_rooms_get s r))"
  using assms
proof (induction inputs arbitrary: s room)
  case Nil
  then show ?case by (simp add: p_send_all_def)
next
  case (Cons i inputs)
  obtain now rnd msg where i: "i = (now, rnd, msg)" by (cases i)
  let ?room1 = "room\<lparr>pr_messages := pr_messages room @ [p_stored (pu_username u) (now, rnd, msg)]\<rparr>"
  let ?s1 = "fst (reached (p_message sid now rnd roomId msg s))"
  have s1: "?s1 = p_rooms_set roomId ?room1 s"
    by (simp add: p_message_ok[OF Cons.prems(2) Cons.prems(1)])
  have a: "p_users ?s1 sid = Some u" using Cons.prems(1) by (simp add: s1)
  have b: "p_rooms_get ?s1 roomId = Some ?room1" by (simp add: s1)
  have c: "p_send_all sid roomId (i # inputs) s = p_send_all sid roomId inputs ?s1"
    by (simp add: p_send_all_def i)
  from Cons.IH[OF a b] show ?case
    unfolding c by (auto simp: s1 i)
qed

lemma p_example_users: "p_users p_example = [js ''a'' \<mapsto> \<lparr>pu_username = js ''u'', pu_currentRoom = js ''general''\<rparr>]"
  by (simp add: p_example_def p_join_room_def p_init_look check_password_def leave_previous_def Let_def)
     (simp add: p_init_def default_rooms_def p_rooms_get_def p_rooms_set_def)

lemma p_example_rooms:
  "p_rooms p_example =
    [(js ''general'', \<lparr>pr_name = js ''General Chat'', pr_password = None, pr_creator = js ''system'',
                    pr_users = [js ''a''], pr_messages = []\<rparr>),
     (js ''random'', \<lparr>pr_name = js ''Random Talk'', pr_password = None, pr_creator = js ''system'',
                   pr_users = [], pr_messages = []\<rparr>),
     (js ''tech'', \<lparr>pr_name = js ''Tech Talk'', pr_password = None, pr_creator = js ''system'',
                 pr_users = [], pr_messages = []\<rparr>)]"
  by (simp add: p_example_def p_join_room_def p_init_look check_password_def leave_previous_def Let_def)
     (simp add: p_init_def default_rooms_def p_rooms_get_def p_rooms_set_def)


lemma p_example51_users: "p_users p_example51 = p_users p_example"
  unfolding p_example51_def using p_send_all_state[OF p_example_user p_example_room] by blast

lemma p_example51_rooms:
  "p_rooms_get p_example51 r =
     (if r = js ''general''
      then Some \<lparr>pr_name = js ''General Chat'', pr_password = None, pr_creator = js ''system'',
                 pr_users = [js ''a''], pr_messages = replicate 51 (p_stored (js ''u'') (1, 0, js ''hi''))\<rparr>
      else p_rooms_get p_example r)"
  unfolding p_example51_def using p_send_all_state[OF p_example_user p_example_room, of "replicate 51 (1, 0, js ''hi'')"]
  by simp

lemma rooms_known_example51: "rooms_known p_example51"
  by (simp add: rooms_known_def p_example51_users p_example_users p_example51_rooms)

subsection \<open>C6: joining and the rooms joined before\<close>





subsection \<open>C8: the history snapshot\<close>

text \<open>
  C8 (as amended). A successful \<open>join_room\<close> emits exactly one event that carries
  a history snapshot, and emits it to the joining connection: in the backend
  server (\<open>room_history\<close>) with the last 100 messages of the room's log, in the
  persistent server (\<open>room_joined\<close>, \<open>previousMessages\<close>) with the last 50
  messages; in both it is the whole log when the log holds no more than that.
\<close>

theorem join_history_snapshot:
  "(b_users s sid = Some u \<and> trim rn \<noteq> [] \<longrightarrow>
      b_histories (snd (join_room sid now (Some rn) s))
        = [(To_socket sid, drop (length (room_log s (trim rn)) - 100) (room_log s (trim rn)))])
   \<and> (rooms_known ps \<and> p_rooms_get ps b = Some rb \<and> check_password rb password = None \<longrightarrow>
        (\<exists>s' evs. p_join_room psid b username password ps = Returns (s', evs)
           \<and> p_histories evs = [(To_socket psid, drop (length (pr_messages rb) - 50) (pr_messages rb))]))"
proof (intro conjI impI)
  assume "b_users s sid = Some u \<and> trim rn \<noteq> []"
  then show "b_histories (snd (join_room sid now (Some rn) s))
        = [(To_socket sid, drop (length (room_log s (trim rn)) - 100) (room_log s (trim rn)))]"
    by (simp add: join_room_history slice_last_def)
next
  assume "rooms_known ps \<and> p_rooms_get ps b = Some rb \<and> check_password rb password = None"
  then have "p_rooms_get ps b = Some rb" "check_password rb password = None" "rooms_known ps"
    by simp_all
  from p_join_room_ok[OF this, of psid username]
  show "\<exists>s' evs. p_join_room psid b username password ps = Returns (s', evs)
           \<and> p_histories evs = [(To_socket psid, drop (length (pr_messages rb) - 50) (pr_messages rb))]"
    by (auto simp: slice_last_def)
qed

theorem join_history_snapshot_witness:
  "length (room_log b_example101 (js ''r'')) = 101
   \<and> b_histories (snd (join_room (js ''a'') 3 (Some (js ''r'')) b_example101))
     = [(To_socket (js ''a''), replicate 100 (stored (js ''a'') (js ''u'') (js ''r'') (1, js ''x'', js ''hi'')))]
   \<and> (\<exists>s' evs. p_join_room (js ''b'') (js ''general'') (js ''v'') None p_example51 = Returns (s', evs)
         \<and> p_histories evs = [(To_socket (js ''b''), replicate 50 (p_stored (js ''u'') (1, 0, js ''hi'')))])"
proof -
  have t: "trim (js ''r'') = js ''r''" by (simp add: trim_letter)
  have "can_send b_example (js ''a'') (js ''r'') (js ''u'') []"
    by (simp add: can_send_def b_example_user b_example_room set_has_def)
  then have "can_send b_example101 (js ''a'') (js ''r'') (js ''u'')
       (foldl (\<lambda>ms i. push_trim (stored (js ''a'') (js ''u'') (js ''r'') i) ms) [] (replicate 101 (1, js ''x'', js ''hi'')))"
    unfolding b_example101_def by (intro can_send_all) (simp_all add: trim_hi)
  then obtain u' where u': "b_users b_example101 (js ''a'') = Some u'"
    and l: "room_log b_example101 (js ''r'') = replicate 101 (stored (js ''a'') (js ''u'') (js ''r'') (1, js ''x'', js ''hi''))"
    by (auto simp: can_send_def room_log_def pushes_below)
  note j = join_history_snapshot[where s = b_example101 and sid = "js ''a''" and rn = "js ''r''"
      and now = 3 and ps = p_example51 and psid = "js ''b''" and b = "js ''general''"
      and password = None and username = "js ''v''" and u = u'
      and rb = "\<lparr>pr_name = js ''General Chat'', pr_password = None, pr_creator = js ''system'',
                 pr_users = [js ''a''], pr_messages = replicate 51 (p_stored (js ''u'') (1, 0, js ''hi''))\<rparr>",
      unfolded t]
  from j show ?thesis
    by (simp add: l u' rooms_known_example51 p_example51_rooms check_password_def)
qed

theorem persistent_history_is_last_50:
  "length (p_room_log p_example51 (js ''general'')) = 51
   \<and> (case p_join_room (js ''b'') (js ''general'') (js ''v'') None p_example51 of
        Throws x \<Rightarrow> False
      | Returns (s', evs) \<Rightarrow> map (\<lambda>(t, ms). (t, length ms)) (p_histories evs) = [(To_socket (js ''b''), 50)])"
proof -
  have r: "p_rooms_get p_example51 (js ''general'') = Some \<lparr>pr_name = js ''General Chat'', pr_password = None, pr_creator = js ''system'',
                 pr_users = [js ''a''], pr_messages = replicate 51 (p_stored (js ''u'') (1, 0, js ''hi''))\<rparr>"
    by (simp add: p_example51_rooms)
  have c: "check_password \<lparr>pr_name = js ''General Chat'', pr_password = None, pr_creator = js ''system'',
                 pr_users = [js ''a''], pr_messages = replicate 51 (p_stored (js ''u'') (1, 0, js ''hi''))\<rparr> None = None"
    by (simp add: check_password_def)
  from p_join_room_ok[OF r c rooms_known_example51, of "js ''b''" "js ''v''"] obtain s' evs where
    "p_join_room (js ''b'') (js ''general'') (js ''v'') None p_example51 = Returns (s', evs)"
    "p_histories evs = [(To_socket (js ''b''), slice_last 50 (replicate 51 (p_stored (js ''u'') (1, 0, js ''hi''))))]"
    by auto
  then show ?thesis by (simp add: p_room_log_def r slice_last_def)
qed

subsection \<open>C4: the checks of sending\<close>











subsection \<open>The persistent server: what every request preserves\<close>



lemma pr_password_left [simp]: "pr_password (left s sid r rd) = pr_password rd"
  by (simp add: left_def)










subsection \<open>C2: the password gate\<close>






subsection \<open>C9: loading the saved data\<close>

lemma loadData_fallback:
  "\<not> dir_exists d \<or> messagesFile d = Missing \<or> messagesFile d = Unparsable \<or>
   roomsFile d = Missing \<or> roomsFile d = Unparsable \<Longrightarrow>
     loadData d rooms = (rooms, d\<lparr>dir_exists := True, messagesFile := Parsed [], roomsFile := Parsed []\<rparr>)"
  by (auto simp: loadData_def start_fresh_def split: document.splits)

lemma loadData_null:
  "dir_exists d \<Longrightarrow> messagesFile d = Parsed savedMessages \<Longrightarrow> roomsFile d = Json_null \<Longrightarrow>
     loadData d rooms = (merge_messages savedMessages rooms, start_fresh d)"
  by (simp add: loadData_def)

lemma loadData_both:
  "dir_exists d \<Longrightarrow> messagesFile d = Parsed savedMessages \<Longrightarrow> roomsFile d = Parsed savedRooms \<Longrightarrow>
     loadData d rooms = (merge_rooms savedRooms (merge_messages savedMessages rooms), d)"
  by (simp add: loadData_def)

lemma first_boot_eq: "first_boot = \<lparr>dir_exists = True, messagesFile = Parsed [], roomsFile = Parsed []\<rparr>"
  by (simp add: first_boot_def loadData_def start_fresh_def)

lemma p_sent1_rooms:
  "p_rooms p_sent1 =
    [(js ''general'', \<lparr>pr_name = js ''General Chat'', pr_password = None, pr_creator = js ''system'',
                    pr_users = [js ''a''], pr_messages = [p_stored (js ''u'') (5, 1/2, js ''x'')]\<rparr>),
     (js ''random'', \<lparr>pr_name = js ''Random Talk'', pr_password = None, pr_creator = js ''system'',
                   pr_users = [], pr_messages = []\<rparr>),
     (js ''tech'', \<lparr>pr_name = js ''Tech Talk'', pr_password = None, pr_creator = js ''system'',
                 pr_users = [], pr_messages = []\<rparr>)]"
  by (simp add: p_sent1_def p_send_all_def p_message_def p_push_def p_rooms_look_def p_rooms_get_def
      p_example_rooms p_example_users p_rooms_set_def p_stored_def Let_def)

text \<open>
  C9, at the input where the code departs from it. The server saves its rooms
  with one message in the log of \<open>general\<close>, and starts again on the two
  documents it wrote. Both documents load; the saved history of \<open>general\<close> is in
  the messages document; after \<open>loadData\<close> the log of \<open>general\<close> is empty: the
  history that was merged in is replaced, with the whole room, by the saved
  room, which \<open>saveData\<close> writes with an empty list of messages.
\<close>

theorem saved_history_lost_on_restart:
  "messagesFile saved_dir = Parsed [(js ''general'', Some [p_stored (js ''u'') (5, 1/2, js ''x'')]),
                                    (js ''random'', Some []), (js ''tech'', Some [])]
   \<and> map_option pr_messages (map_of (fst (loadData saved_dir default_rooms)) (js ''general'')) = Some []
   \<and> snd (loadData saved_dir default_rooms) = saved_dir"
  by (simp add: saved_dir_def saveData_def first_boot_eq p_sent1_rooms slice_last_def loadData_def
      merge_rooms_def merge_messages_def default_rooms_def)

text \<open>The same for every room that was saved, whatever the rooms at startup are.\<close>

lemma map_of_merge_rooms: "map_of (merge_rooms ys X) = map_of X ++ map_of (rev ys)"
  unfolding merge_rooms_def
proof (induction ys arbitrary: X)
  case Nil
  then show ?case by simp
next
  case (Cons a ys)
  obtain k v where a: "a = (k, v)" by (cases a)
  have "map_of (foldl (\<lambda>rs (roomId, room). AList.update roomId room rs) X (a # ys))
        = map_of (AList.update k v X) ++ map_of (rev ys)"
    using Cons.IH[of "AList.update k v X"] by (simp add: a)
  also have "\<dots> = map_of X ++ map_of (rev (a # ys))"
    by (simp add: a update_conv' map_add_upd_left)
  finally show ?case .
qed


lemma restart_forgets_histories:
  assumes "dir_exists d" and "(k, r) \<in> set rooms"
  shows "\<exists>r'. map_of (fst (loadData (saveData rooms d) rooms0)) k = Some r' \<and> pr_messages r' = []"
proof -
  define strip :: "jstring \<times> p_room \<Rightarrow> jstring \<times> p_room" where
    "strip = (\<lambda>(roomId, room). (roomId, \<lparr>pr_name = pr_name room, pr_password = pr_password room,
                                   pr_creator = pr_creator room, pr_users = [], pr_messages = []\<rparr>))"
  define saved where "saved = map strip rooms"
  define msgs where "msgs = map (\<lambda>(roomId, room). (roomId, Some (slice_last 100 (pr_messages room)))) rooms"
  have l: "loadData (saveData rooms d) rooms0 = (merge_rooms saved (merge_messages msgs rooms0), saveData rooms d)"
    using assms(1) by (intro loadData_both) (simp_all add: saveData_def saved_def msgs_def strip_def)
  have e: "\<And>v. (k, v) \<in> set saved \<Longrightarrow> pr_messages v = []"
    by (auto simp: saved_def strip_def)
  from assms(2) have "(k, snd (strip (k, r))) \<in> set (rev saved)"
    by (force simp: saved_def strip_def)
  then have "k \<in> fst ` set (rev saved)" by (rule image_eqI[rotated]) simp
  then have "k \<in> dom (map_of (rev saved))" by (simp only: dom_map_of_conv_image_fst)
  then obtain v where v: "map_of (rev saved) k = Some v" by blast
  then have "(k, v) \<in> set (rev saved)" by (rule map_of_SomeD)
  then have "pr_messages v = []" using e by simp
  moreover from v have "map_of (merge_rooms saved (merge_messages msgs rooms0)) k = Some v"
    by (simp add: map_of_merge_rooms)
  ultimately show ?thesis using l by simp
qed

subsection \<open>Disconnecting when the user record lists the rooms\<close>

lemma without_idem [simp]: "without sid (without sid rd) = without sid rd"
  by (simp add: without_def set_delete_def)

lemma disconnect_rooms_fold:
  "\<forall>r\<in>set rs. rooms_get s0 r \<noteq> None \<Longrightarrow>
   \<exists>s1. foldl (\<lambda>acc r. disconnect_room sid now u r acc) (s0, evs0) rs
           = (s1, evs0 @ map (left_event sid now u s0) rs)
        \<and> b_users s1 = b_users s0
        \<and> (\<forall>r. rooms_get s1 r = (if r \<in> set rs then map_option (without sid) (rooms_get s0 r)
                                  else rooms_get s0 r))"
proof (induction rs arbitrary: s0 evs0)
  case Nil
  then show ?case by simp
next
  case (Cons r rs)
  from Cons.prems obtain rd where rd: "rooms_get s0 r = Some rd" by auto
  let ?s = "rooms_set r (without sid rd) s0"
  have step: "disconnect_room sid now u r (s0, evs0) = (?s, evs0 @ [left_event sid now u s0 r])"
    using rd by (simp add: disconnect_room_def Let_def without_def left_event_def room_members_def)
  have ex: "\<forall>r'\<in>set rs. rooms_get ?s r' \<noteq> None" using Cons.prems by simp
  from Cons.IH[OF ex, of "evs0 @ [left_event sid now u s0 r]"] obtain s1 where
    s1: "foldl (\<lambda>acc r. disconnect_room sid now u r acc) (?s, evs0 @ [left_event sid now u s0 r]) rs
           = (s1, (evs0 @ [left_event sid now u s0 r]) @ map (left_event sid now u ?s) rs)"
        "b_users s1 = b_users ?s"
        "\<forall>r'. rooms_get s1 r' = (if r' \<in> set rs then map_option (without sid) (rooms_get ?s r')
                                  else rooms_get ?s r')"
    by blast
  have ev: "\<And>r'. left_event sid now u ?s r' = left_event sid now u s0 r'"
    using rd by (simp add: left_event_def room_members_def without_def set_delete_def)
  have "\<forall>r'. rooms_get s1 r' = (if r' \<in> set (r # rs) then map_option (without sid) (rooms_get s0 r')
                                  else rooms_get s0 r')"
    using s1(3) rd by auto
  with s1(1,2) step ev show ?case by simp
qed

lemma disconnect_listed_rooms:
  assumes "b_users s sid = Some u" and "\<forall>r\<in>set (bu_rooms u). rooms_get s r \<noteq> None"
  shows "snd (disconnect sid now s) = map (left_event sid now u s) (bu_rooms u)
       \<and> b_users (fst (disconnect sid now s)) = (b_users s)(sid := None)
       \<and> (\<forall>r. room_members (fst (disconnect sid now s)) r =
                (if r \<in> set (bu_rooms u) then set_delete sid (room_members s r) else room_members s r))"
proof -
  from disconnect_rooms_fold[OF assms(2), of sid now u "[]"] obtain s1 where
    s1: "foldl (\<lambda>acc r. disconnect_room sid now u r acc) (s, []) (bu_rooms u)
           = (s1, map (left_event sid now u s) (bu_rooms u))"
        "b_users s1 = b_users s"
        "\<forall>r. rooms_get s1 r = (if r \<in> set (bu_rooms u) then map_option (without sid) (rooms_get s r)
                                  else rooms_get s r)"
    by auto
  have d: "disconnect sid now s = (s1\<lparr>b_users := (b_users s1)(sid := None)\<rparr>, map (left_event sid now u s) (bu_rooms u))"
    using assms(1) s1(1) by (simp add: disconnect_def)
  have m: "\<And>r. room_members (s1\<lparr>b_users := (b_users s1)(sid := None)\<rparr>) r =
                (if r \<in> set (bu_rooms u) then set_delete sid (room_members s r) else room_members s r)"
    using s1(3) by (simp add: room_members_def without_def set_delete_def split: option.splits)
  from d m s1(2) show ?thesis by simp
qed

lemma length_set_delete: "distinct xs \<Longrightarrow> x \<in> set xs \<Longrightarrow> length (set_delete x xs) = length xs - 1"
  unfolding set_delete_def
  by (simp add: distinct_remove1_removeAll[symmetric] length_remove1)

lemma b_two_rooms_a:
  "b_users b_two_rooms (js ''a'') = Some \<lparr>bu_username = js ''u'', bu_socketId = js ''a'', bu_rooms = [js ''r'', js ''q''],
                     bu_connectedAt = 0, bu_lastActivity = 2\<rparr>"
  by (simp add: b_two_rooms_def b_two_rooms_reqs_def b_example_def b_example_reqs_def b_init_def
      register_user_def join_room_def trim_letter set_add_def Let_def rooms_get_def rooms_set_def)

lemma b_two_rooms_rooms:
  "b_rooms b_two_rooms =
     [(js ''r'', \<lparr>br_name = js ''r'', br_users = [js ''a'', js ''b''], br_messages = [], br_createdAt = 0\<rparr>),
      (js ''q'', \<lparr>br_name = js ''q'', br_users = [js ''a''], br_messages = [], br_createdAt = 2\<rparr>)]"
  by (simp add: b_two_rooms_def b_two_rooms_reqs_def b_example_def b_example_reqs_def b_init_def
      register_user_def join_room_def trim_letter set_add_def Let_def rooms_get_def rooms_set_def)

text \<open>
  The disconnect handler of the backend server, for a connection whose user
  record lists every room it is a member of (as it does until the connection
  registers a second time), the rooms listed existing and the member lists
  being free of repetition: the connection is removed from the registry and
  from every room, the rooms not listed keep their members, and one \<open>user_left\<close>
  is emitted per room listed, in the order of joining, to the others in that
  room, with the number of members before the disconnect less one.
\<close>

theorem disconnect_leaves_listed_rooms:
  "b_users s sid = Some u \<and> (\<forall>r\<in>set (bu_rooms u). rooms_get s r \<noteq> None) \<and>
   (\<forall>r. sid \<in> set (room_members s r) \<longrightarrow> r \<in> set (bu_rooms u) \<and> distinct (room_members s r))
   \<longrightarrow> b_users (fst (disconnect sid now s)) sid = None
     \<and> (\<forall>r. sid \<notin> set (room_members (fst (disconnect sid now s)) r))
     \<and> (\<forall>r. r \<notin> set (bu_rooms u) \<longrightarrow> room_members (fst (disconnect sid now s)) r = room_members s r)
     \<and> map fst (snd (disconnect sid now s)) = map (\<lambda>r. To_room_except r sid) (bu_rooms u)
     \<and> (\<forall>r\<in>set (bu_rooms u). sid \<in> set (room_members s r) \<longrightarrow>
           (To_room_except r sid, User_left r (bu_username u) sid now (length (room_members s r) - 1))
             \<in> set (snd (disconnect sid now s)))"
proof
  assume h: "b_users s sid = Some u \<and> (\<forall>r\<in>set (bu_rooms u). rooms_get s r \<noteq> None) \<and>
   (\<forall>r. sid \<in> set (room_members s r) \<longrightarrow> r \<in> set (bu_rooms u) \<and> distinct (room_members s r))"
  then have a: "b_users s sid = Some u" "\<forall>r\<in>set (bu_rooms u). rooms_get s r \<noteq> None" by simp_all
  note d = disconnect_listed_rooms[OF a, of now]
  have 1: "b_users (fst (disconnect sid now s)) sid = None" using d by simp
  have 2: "\<forall>r. sid \<notin> set (room_members (fst (disconnect sid now s)) r)"
    using d h by (auto simp: set_delete_def)
  have 3: "\<forall>r. r \<notin> set (bu_rooms u) \<longrightarrow> room_members (fst (disconnect sid now s)) r = room_members s r"
    using d by simp
  have 4: "map fst (snd (disconnect sid now s)) = map (\<lambda>r. To_room_except r sid) (bu_rooms u)"
    using d by (simp add: left_event_def)
  have 5: "\<forall>r\<in>set (bu_rooms u). sid \<in> set (room_members s r) \<longrightarrow>
           (To_room_except r sid, User_left r (bu_username u) sid now (length (room_members s r) - 1))
             \<in> set (snd (disconnect sid now s))"
  proof (intro ballI impI)
    fix r assume r: "r \<in> set (bu_rooms u)" and m: "sid \<in> set (room_members s r)"
    with h have "distinct (room_members s r)" by blast
    then have "length (set_delete sid (room_members s r)) = length (room_members s r) - 1"
      using m by (rule length_set_delete)
    then have "left_event sid now u s r
         = (To_room_except r sid, User_left r (bu_username u) sid now (length (room_members s r) - 1))"
      by (simp add: left_event_def)
    with r d show "(To_room_except r sid, User_left r (bu_username u) sid now (length (room_members s r) - 1))
             \<in> set (snd (disconnect sid now s))"
      by (metis (no_types, lifting) image_eqI list.set_map)
  qed
  from 1 2 3 4 5
  show "b_users (fst (disconnect sid now s)) sid = None
     \<and> (\<forall>r. sid \<notin> set (room_members (fst (disconnect sid now s)) r))
     \<and> (\<forall>r. r \<notin> set (bu_rooms u) \<longrightarrow> room_members (fst (disconnect sid now s)) r = room_members s r)
     \<and> map fst (snd (disconnect sid now s)) = map (\<lambda>r. To_room_except r sid) (bu_rooms u)
     \<and> (\<forall>r\<in>set (bu_rooms u). sid \<in> set (room_members s r) \<longrightarrow>
           (To_room_except r sid, User_left r (bu_username u) sid now (length (room_members s r) - 1))
             \<in> set (snd (disconnect sid now s)))"
    by blast
qed

theorem disconnect_leaves_listed_rooms_witness:
  "room_members b_two_rooms (js ''r'') = [js ''a'', js ''b''] \<and> room_members b_two_rooms (js ''q'') = [js ''a'']
   \<and> b_users (fst (disconnect (js ''a'') 9 b_two_rooms)) (js ''a'') = None
   \<and> js ''a'' \<notin> set (room_members (fst (disconnect (js ''a'') 9 b_two_rooms)) (js ''r''))
   \<and> js ''a'' \<notin> set (room_members (fst (disconnect (js ''a'') 9 b_two_rooms)) (js ''q''))
   \<and> map fst (snd (disconnect (js ''a'') 9 b_two_rooms)) = [To_room_except (js ''r'') (js ''a''), To_room_except (js ''q'') (js ''a'')]
   \<and> (To_room_except (js ''r'') (js ''a''), User_left (js ''r'') (js ''u'') (js ''a'') 9 1) \<in> set (snd (disconnect (js ''a'') 9 b_two_rooms))
   \<and> (To_room_except (js ''q'') (js ''a''), User_left (js ''q'') (js ''u'') (js ''a'') 9 0) \<in> set (snd (disconnect (js ''a'') 9 b_two_rooms))"
proof -
  have m: "\<And>r. room_members b_two_rooms r = (if r = js ''r'' then [js ''a'', js ''b''] else if r = js ''q'' then [js ''a''] else [])"
    by (simp add: room_members_def rooms_get_def b_two_rooms_rooms)
  have g: "\<exists>y. rooms_get b_two_rooms (js ''r'') = Some y" "\<exists>y. rooms_get b_two_rooms (js ''q'') = Some y"
    by (simp_all add: rooms_get_def b_two_rooms_rooms)
  let ?u = "\<lparr>bu_username = js ''u'', bu_socketId = js ''a'', bu_rooms = [js ''r'', js ''q''],
                     bu_connectedAt = 0, bu_lastActivity = 2\<rparr>"
  have h: "b_users b_two_rooms (js ''a'') = Some ?u \<and> (\<forall>r\<in>set (bu_rooms ?u). rooms_get b_two_rooms r \<noteq> None) \<and>
     (\<forall>r. js ''a'' \<in> set (room_members b_two_rooms r) \<longrightarrow>
          r \<in> set (bu_rooms ?u) \<and> distinct (room_members b_two_rooms r))"
    by (auto simp: b_two_rooms_a m g split: if_splits)
  from disconnect_leaves_listed_rooms[where s = b_two_rooms and sid = "js ''a''" and now = 9 and u = ?u] h
  have c: "b_users (fst (disconnect (js ''a'') 9 b_two_rooms)) (js ''a'') = None
     \<and> (\<forall>r. js ''a'' \<notin> set (room_members (fst (disconnect (js ''a'') 9 b_two_rooms)) r))
     \<and> map fst (snd (disconnect (js ''a'') 9 b_two_rooms)) = map (\<lambda>r. To_room_except r (js ''a'')) (bu_rooms ?u)
     \<and> (\<forall>r\<in>set (bu_rooms ?u). js ''a'' \<in> set (room_members b_two_rooms r) \<longrightarrow>
           (To_room_except r (js ''a''), User_left r (bu_username ?u) (js ''a'') 9 (length (room_members b_two_rooms r) - 1))
             \<in> set (snd (disconnect (js ''a'') 9 b_two_rooms)))"
    by blast
  then show ?thesis by (simp add: m)
qed

subsection \<open>Loading falls back to the rooms at hand\<close>

text \<open>
  \<open>loadData\<close> with the data directory missing, or either document missing or
  not parsable: the rooms are left as they are (the default rooms at startup),
  the directory exists afterwards and both documents are rewritten as the
  empty object. \<open>loadData\<close> returns in every case: it is a total function.
\<close>

theorem load_data_falls_back:
  "\<not> dir_exists d \<or> messagesFile d = Missing \<or> messagesFile d = Unparsable \<or>
   roomsFile d = Missing \<or> roomsFile d = Unparsable \<longrightarrow>
     loadData d rooms = (rooms, d\<lparr>dir_exists := True, messagesFile := Parsed [], roomsFile := Parsed []\<rparr>)"
  using loadData_fallback by blast

theorem load_data_falls_back_witness:
  "loadData \<lparr>dir_exists = True, messagesFile = Parsed [(js ''general'', None)], roomsFile = Unparsable\<rparr> default_rooms
     = (default_rooms, \<lparr>dir_exists = True, messagesFile = Parsed [], roomsFile = Parsed []\<rparr>)"
  using load_data_falls_back[where d = "\<lparr>dir_exists = True, messagesFile = Parsed [(js ''general'', None)], roomsFile = Unparsable\<rparr>"
      and rooms = default_rooms]
  by simp

subsection \<open>The order of the backend ids\<close>

lemma append_less_same_length:
  "xs < ys \<Longrightarrow> length xs = length ys \<Longrightarrow> xs @ u < ys @ (v :: 'a :: linorder list)"
  unfolding list_less_def by (simp add: lexord_sufI)

lemma append_less_last: "c < d \<Longrightarrow> xs @ c # u < xs @ d # (v :: 'a :: linorder list)"
  unfolding list_less_def by (simp add: lexord_append_leftI)

lemma show_nat_less:
  "a < b \<Longrightarrow> length (show_nat a) = length (show_nat b) \<Longrightarrow> show_nat a @ u < show_nat b @ v"
proof (induction a arbitrary: b u v rule: show_nat.induct)
  case (1 a)
  show ?case
  proof (cases "a < 10")
    case True
    have la: "show_nat a = [48 + a]" using True by (simp add: show_nat.simps)
    with "1.prems"(2) have "b < 10"
      by (subst (asm) (2) show_nat.simps) (auto split: if_splits simp: show_nat.simps[of "b div 10"])
    then have lb: "show_nat b = [48 + b]" by (simp add: show_nat.simps)
    from "1.prems"(1) have "48 + a < 48 + b" by simp
    from append_less_last[OF this, of "[]" u v] show ?thesis by (simp add: la lb)
  next
    case False
    then have la: "show_nat a = show_nat (a div 10) @ [48 + a mod 10]"
      by (subst show_nat.simps) simp
    from False "1.prems"(1) have b10: "\<not> b < 10" by simp
    then have lb: "show_nat b = show_nat (b div 10) @ [48 + b mod 10]"
      by (subst show_nat.simps) simp
    from "1.prems"(2) have len: "length (show_nat (a div 10)) = length (show_nat (b div 10))"
      by (simp add: la lb)
    show ?thesis
    proof (cases "a div 10 < b div 10")
      case True
      from "1.IH"[OF False True len] show ?thesis by (simp add: la lb)
    next
      case f: False
      with "1.prems"(1) have e: "a div 10 = b div 10" by (simp add: div_le_mono order.order_iff_strict)
      with "1.prems"(1) have "a mod 10 < b mod 10" by (metis div_mult_mod_eq nat_add_left_cancel_less)
      then have "48 + a mod 10 < 48 + b mod 10" by simp
      from append_less_last[OF this, of "show_nat (b div 10)" u v] show ?thesis
        by (simp add: la lb e)
    qed
  qed
qed

lemma b_message_id_less:
  "a < b \<Longrightarrow> length (show_nat a) = length (show_nat b) \<Longrightarrow> b_message_id a r < b_message_id b r'"
  unfolding b_message_id_def by (rule show_nat_less)

subsection \<open>The order of the persistent ids\<close>

lemma round_even_ge: "of_int a \<le> y \<Longrightarrow> a \<le> round_even y"
proof -
  assume "of_int a \<le> y"
  then have "a \<le> \<lfloor>y\<rfloor>" by (simp add: le_floor_iff)
  then show ?thesis by (simp add: round_even_def Let_def)
qed

lemma round_even_le: "y \<le> of_int b \<Longrightarrow> round_even y \<le> b"
proof -
  assume h: "y \<le> of_int b"
  then have f: "\<lfloor>y\<rfloor> \<le> b" by (simp add: floor_le_iff)
  show ?thesis
  proof (cases "y - of_int \<lfloor>y\<rfloor> < 1 / 2")
    case True
    with f show ?thesis by (simp add: round_even_def Let_def)
  next
    case False
    then have "of_int \<lfloor>y\<rfloor> < y" by simp
    with h have "(of_int \<lfloor>y\<rfloor> :: rat) < of_int b" by simp
    then have "\<lfloor>y\<rfloor> + 1 \<le> b" by simp
    with f show ?thesis by (simp add: round_even_def Let_def)
  qed
qed

lemma round_even_of_int [simp]: "round_even (of_int k) = k"
  by (simp add: round_even_def)

lemma log2_le: "n < 2 ^ Suc k \<Longrightarrow> log2 n \<le> k"
proof (induction k arbitrary: n)
  case 0
  then show ?case by (simp add: log2.simps)
next
  case (Suc k)
  show ?case
  proof (cases "n < 2")
    case True
    then show ?thesis by (simp add: log2.simps)
  next
    case False
    from Suc.prems have "n div 2 < 2 ^ Suc k" by simp
    from Suc.IH[OF this] False show ?thesis by (subst log2.simps) simp
  qed
qed

lemma to_double_bounds:
  assumes "n < 2 ^ 53" and "0 \<le> r" and "r < 1"
  shows "of_nat n \<le> to_double (of_nat n + r) \<and> to_double (of_nat n + r) \<le> of_nat n + 1"
proof (cases "n = 0")
  case True
  with assms show ?thesis by (simp add: to_double_def)
next
  case False
  let ?x = "of_nat n + r :: rat"
  have fl: "\<lfloor>?x\<rfloor> = int n" using assms by (intro floor_unique) simp_all
  have x1: "\<not> ?x < 1" using False assms(2) by (simp add: not_less)
  from assms(1) have e: "log2 n \<le> 52" by (intro log2_le) simp
  define q :: nat where "q = 2 ^ (52 - log2 n)"
  have q: "0 < q" by (simp add: q_def)
  have d: "to_double ?x = of_int (round_even (?x * of_nat q)) / of_nat q"
    using x1 e by (simp add: to_double_def fl q_def Let_def)
  have lo: "of_int (int n * int q) \<le> ?x * of_nat q" using assms(2) q by (simp add: mult_right_mono)
  have hi: "?x * of_nat q \<le> of_int ((int n + 1) * int q)" using assms(3) q by (simp add: mult_right_mono)
  from round_even_ge[OF lo] have "of_int (int n * int q) \<le> (of_int (round_even (?x * of_nat q)) :: rat)"
    by (simp only: of_int_le_iff)
  then have a: "of_nat n \<le> to_double ?x" using q by (simp add: d pos_le_divide_eq)
  from round_even_le[OF hi] have "(of_int (round_even (?x * of_nat q)) :: rat) \<le> of_int ((int n + 1) * int q)"
    by (simp only: of_int_le_iff)
  then have b: "to_double ?x \<le> of_nat n + 1" using q by (simp add: d pos_divide_le_eq)
  from a b show ?thesis by simp
qed

lemma p_message_id_mono:
  assumes "t < t'" and "t' < 2 ^ 53" and "0 \<le> r" and "r < 1" and "0 \<le> r'" and "r' < 1"
  shows "p_message_id t r \<le> p_message_id t' r' \<and> (t + 1 < t' \<longrightarrow> p_message_id t r < p_message_id t' r')"
proof -
  from assms(1,2) have t: "t < 2 ^ 53" by simp
  from to_double_bounds[OF t assms(3,4)] have a: "p_message_id t r \<le> of_nat t + 1"
    by (simp add: p_message_id_def)
  from to_double_bounds[OF assms(2,5,6)] have b: "of_nat t' \<le> p_message_id t' r'"
    by (simp add: p_message_id_def)
  from assms(1) have c: "(of_nat t :: rat) + 1 \<le> of_nat t'"
    by (metis Suc_eq_plus1 Suc_leI of_nat_1 of_nat_add of_nat_le_iff)
  have d: "t + 1 < t' \<Longrightarrow> (of_nat t :: rat) + 1 < of_nat t'"
    by (metis of_nat_1 of_nat_add of_nat_less_iff)
  from a b c d show ?thesis by auto
qed

lemma p_message_id_exact:
  assumes "1 \<le> now" and "log2 now = e" and "e \<le> 52" and "0 \<le> rnd" and "rnd < 1"
    and "(of_nat now + rnd) * 2 ^ (52 - e) = of_int k"
  shows "p_message_id now rnd = of_nat now + rnd"
proof -
  let ?x = "of_nat now + rnd :: rat"
  define q :: rat where "q = 2 ^ (52 - e)"
  have q: "q \<noteq> 0" by (simp add: q_def)
  have fl: "\<lfloor>?x\<rfloor> = int now" using assms(4,5) by (intro floor_unique) simp_all
  have x1: "\<not> ?x < 1" using assms(1,4) by (simp add: not_less)
  from assms(6) have xk: "?x * q = of_int k" by (simp add: q_def)
  have "to_double ?x = of_int (round_even (?x * q)) / q"
    using x1 assms(2,3) by (simp add: to_double_def fl q_def Let_def)
  also have "\<dots> = of_int k / q" by (simp add: xk)
  also have "\<dots> = ?x" using xk[symmetric] q by simp
  finally show ?thesis by (simp add: p_message_id_def)
qed

lemma p_message_id_examples:
  "p_message_id 5 (1/2) = 11/2" "p_message_id 5 (1/4) = 21/4" "p_message_id 6 0 = 6"
proof -
  have l5: "log2 5 = 2" and l6: "log2 6 = 2" by (simp_all add: log2.simps)
  show "p_message_id 5 (1/2) = 11/2"
    using p_message_id_exact[of 5 2 "1/2" "11 * 2 ^ 49"] by (simp add: l5)
  show "p_message_id 5 (1/4) = 21/4"
    using p_message_id_exact[of 5 2 "1/4" "21 * 2 ^ 48"] by (simp add: l5)
  show "p_message_id 6 0 = 6"
    using p_message_id_exact[of 6 2 0 "6 * 2 ^ 50"] by (simp add: l6)
qed

lemma p_message_id_rounds:
  "p_message_id 1700000000000 (16383/16384) = 1700000000001"
  "p_message_id 1700000000001 0 = 1700000000001"
proof -
  have l: "log2 1700000000000 = 40" "log2 1700000000001 = 40" by (simp_all add: log2.simps)
  have f1: "\<lfloor>27852800000016383/16384 :: rat\<rfloor> = 1700000000000" by (rule floor_unique) simp_all
  have f2: "\<lfloor>27852800000016383/4 :: rat\<rfloor> = 6963200000004095" by (rule floor_unique) simp_all
  have r: "round_even (27852800000016383/4) = 6963200000004096"
    by (simp add: round_even_def f2 Let_def)
  have "to_double (27852800000016383/16384) = 1700000000001"
    by (simp add: to_double_def f1 l Let_def r)
  then show "p_message_id 1700000000000 (16383/16384) = 1700000000001"
    by (simp add: p_message_id_def)
  show "p_message_id 1700000000001 0 = 1700000000001"
    using p_message_id_exact[of 1700000000001 40 0 "1700000000001 * 2 ^ 12"] by (simp add: l)
qed

lemma p_file_upload_ok:
  assumes "p_rooms_get s roomId = Some room" and "p_users s sid = Some u"
  shows "p_file_upload sid now rnd roomId fileData fileName fileType s =
          Returns (p_rooms_set roomId
                     (room\<lparr>pr_messages := pr_messages room @
                        [p_stored_file (pu_username u) now rnd fileData fileName fileType]\<rparr>) s,
                   [(To_room roomId, Message (p_stored_file (pu_username u) now rnd fileData fileName fileType))])"
  using assms by (simp add: p_file_upload_def p_push_def p_stored_file_def Let_def)

subsection \<open>C5: message ids\<close>

text \<open>
  C5 (as amended). In the persistent server the handlers \<open>message\<close> and
  \<open>file_upload\<close> append a message whose id is the double \<open>Date.now() + Math.random()\<close>.
  It is not smaller than the id of any message in the log whose id was formed
  at an earlier clock reading, and strictly greater than the id of any message
  whose id was formed two milliseconds earlier or more. In the backend
  server the id is the string of the clock reading, a hyphen and a random
  suffix, and ids are compared as strings: the id of the message that
  \<open>send_message\<close> appends is strictly greater than the id of any message in the
  log whose id was formed at an earlier clock reading with the same number of
  digits. (Within one millisecond the random parts alone decide, and the later
  message can get the smaller id; in two consecutive milliseconds the doubles
  can be equal.)
\<close>

theorem message_ids_follow_the_clock:
  "(p_users ps psid = Some pu \<and> p_rooms_get ps roomId = Some prd \<and> 0 \<le> prnd \<and> prnd < 1 \<and> now < 2 ^ 53
    \<longrightarrow> p_room_log (fst (reached (p_message psid now prnd roomId msg ps))) roomId
          = pr_messages prd @ [p_stored (pu_username pu) (now, prnd, msg)]
        \<and> p_room_log (fst (reached (p_file_upload psid now prnd roomId fileData fileName fileType ps))) roomId
          = pr_messages prd @ [p_stored_file (pu_username pu) now prnd fileData fileName fileType]
        \<and> pm_id (p_stored (pu_username pu) (now, prnd, msg)) = p_message_id now prnd
        \<and> pm_id (p_stored_file (pu_username pu) now prnd fileData fileName fileType) = p_message_id now prnd
        \<and> (\<forall>m\<in>set (pr_messages prd). \<forall>t r. pm_id m = p_message_id t r \<and> 0 \<le> r \<and> r < 1 \<and> t < now \<longrightarrow>
              pm_id m \<le> p_message_id now prnd \<and> (t + 1 < now \<longrightarrow> pm_id m < p_message_id now prnd)))
   \<and> (b_users s sid = Some u \<and> rooms_get s room = Some rd \<and> set_has sid (br_users rd) \<and>
      room \<noteq> [] \<and> trim msg \<noteq> []
      \<longrightarrow> room_log (fst (send_message sid now rnd room (Some msg) s)) room
            = push_trim (stored sid (bu_username u) room (now, rnd, msg)) (br_messages rd)
        \<and> bm_id (stored sid (bu_username u) room (now, rnd, msg)) = b_message_id now rnd
        \<and> (\<forall>m\<in>set (br_messages rd). \<forall>t r. bm_id m = b_message_id t r \<and> t < now \<and>
               length (show_nat t) = length (show_nat now) \<longrightarrow>
              bm_id m < b_message_id now rnd))"
proof (intro impI conjI ballI allI)
  assume h: "p_users ps psid = Some pu \<and> p_rooms_get ps roomId = Some prd \<and> 0 \<le> prnd \<and> prnd < 1 \<and> now < 2 ^ 53"
  then have u: "p_users ps psid = Some pu" and r: "p_rooms_get ps roomId = Some prd" by simp_all
  show "p_room_log (fst (reached (p_message psid now prnd roomId msg ps))) roomId
         = pr_messages prd @ [p_stored (pu_username pu) (now, prnd, msg)]"
    by (simp add: p_message_ok[OF r u] p_room_log_def)
  show "p_room_log (fst (reached (p_file_upload psid now prnd roomId fileData fileName fileType ps))) roomId
          = pr_messages prd @ [p_stored_file (pu_username pu) now prnd fileData fileName fileType]"
    by (simp add: p_file_upload_ok[OF r u] p_room_log_def)
  show "pm_id (p_stored (pu_username pu) (now, prnd, msg)) = p_message_id now prnd"
    by (simp add: p_stored_def)
  show "pm_id (p_stored_file (pu_username pu) now prnd fileData fileName fileType) = p_message_id now prnd"
    by (simp add: p_stored_file_def)
  fix m t r'
  assume "m \<in> set (pr_messages prd)"
    and m: "pm_id m = p_message_id t r' \<and> 0 \<le> r' \<and> r' < 1 \<and> t < now"
  with h have a: "t < now" "now < 2 ^ 53" "0 \<le> r'" "r' < 1" "0 \<le> prnd" "prnd < 1" by simp_all
  from p_message_id_mono[OF a] m
  show "pm_id m \<le> p_message_id now prnd" and "t + 1 < now \<Longrightarrow> pm_id m < p_message_id now prnd"
    by simp_all
next
  assume h: "b_users s sid = Some u \<and> rooms_get s room = Some rd \<and> set_has sid (br_users rd) \<and>
      room \<noteq> [] \<and> trim msg \<noteq> []"
  then have a: "b_users s sid = Some u" "rooms_get s room = Some rd" "set_has sid (br_users rd)"
    "room \<noteq> []" "trim msg \<noteq> []" by simp_all
  show "room_log (fst (send_message sid now rnd room (Some msg) s)) room
            = push_trim (stored sid (bu_username u) room (now, rnd, msg)) (br_messages rd)"
    by (simp add: send_message_ok[OF a] room_log_def)
  show "bm_id (stored sid (bu_username u) room (now, rnd, msg)) = b_message_id now rnd"
    by (simp add: stored_def)
  fix m t r'
  assume "m \<in> set (br_messages rd)"
    and m: "bm_id m = b_message_id t r' \<and> t < now \<and> length (show_nat t) = length (show_nat now)"
  then have "t < now" "length (show_nat t) = length (show_nat now)" by simp_all
  from b_message_id_less[OF this, of r' rnd] m
  show "bm_id m < b_message_id now rnd" by simp
qed

theorem message_ids_follow_the_clock_witness:
  "map pm_id (p_room_log p_sent1 (js ''general'')) = [11/2]
   \<and> map pm_id (p_room_log (fst (reached (p_message (js ''a'') 6 0 (js ''general'') (js ''y'') p_sent1))) (js ''general''))
       = [11/2, 6]
   \<and> map pm_id (p_room_log (fst (reached (p_file_upload (js ''a'') 6 0 (js ''general'') (js ''d'') (js ''f'') (js ''t'') p_sent1)))
        (js ''general'')) = [11/2, 6]
   \<and> (11/2 :: rat) \<le> 6
   \<and> map bm_id (room_log b_sent1 (js ''r'')) = [js ''5-i'']
   \<and> map bm_id (room_log (fst (send_message (js ''a'') 6 (js ''9'') (js ''r'') (Some (js ''y'')) b_sent1)) (js ''r''))
       = [js ''5-i'', js ''6-9'']
   \<and> js ''5-i'' < js ''6-9''"
proof -
  let ?room = "\<lparr>pr_name = js ''General Chat'', pr_password = None,
      pr_creator = js ''system'', pr_users = [js ''a''],
      pr_messages = [p_stored (js ''u'') (5, 1/2, js ''x'')]\<rparr>"
  let ?pu = "\<lparr>pu_username = js ''u'', pu_currentRoom = js ''general''\<rparr>"
  from p_send_all_state[OF p_example_user p_example_room, of "[(5, 1/2, js ''x'')]"]
  have r: "p_rooms_get p_sent1 (js ''general'') = Some ?room" and u: "p_users p_sent1 (js ''a'') = Some ?pu"
    by (simp_all add: p_sent1_def p_example_user)
  have i: "pm_id (p_stored (js ''u'') (5, 1/2, js ''x'')) = p_message_id 5 (1/2)"
    by (simp add: p_stored_def)
  have "can_send b_example (js ''a'') (js ''r'') (js ''u'') []"
    by (simp add: can_send_def b_example_user b_example_room set_has_def)
  then have "can_send b_sent1 (js ''a'') (js ''r'') (js ''u'')
       (foldl (\<lambda>ms i. push_trim (stored (js ''a'') (js ''u'') (js ''r'') i) ms) [] [(5, js ''i'', js ''x'')])"
    unfolding b_sent1_def by (intro can_send_all) (simp_all add: trim_letter)
  then obtain u' rd' where b: "b_users b_sent1 (js ''a'') = Some u'" "bu_username u' = js ''u''"
      "rooms_get b_sent1 (js ''r'') = Some rd'" "set_has (js ''a'') (br_users rd')"
      "br_messages rd' = [stored (js ''a'') (js ''u'') (js ''r'') (5, js ''i'', js ''x'')]"
    by (auto simp: can_send_def push_trim_below)
  have s5: "show_nat 5 = js ''5''" "show_nat 6 = js ''6''" by (simp_all add: show_nat.simps js_def)
  have ids: "b_message_id 5 (js ''i'') = js ''5-i''" "b_message_id 6 (js ''9'') = js ''6-9''"
    by (simp_all add: b_message_id_def show_nat.simps js_def)
  have i': "bm_id (stored (js ''a'') (js ''u'') (js ''r'') (5, js ''i'', js ''x'')) = b_message_id 5 (js ''i'')"
    by (simp add: stored_def)
  note th = message_ids_follow_the_clock[where ps = p_sent1 and psid = "js ''a''" and pu = ?pu and roomId = "js ''general''"
      and prd = ?room and prnd = 0 and now = 6 and msg = "js ''y''"
      and fileData = "js ''d''" and fileName = "js ''f''" and fileType = "js ''t''"
      and s = b_sent1 and sid = "js ''a''" and u = u' and room = "js ''r''" and rd = rd' and rnd = "js ''9''"]
  have p: "map pm_id (p_room_log p_sent1 (js ''general'')) = [11/2]
   \<and> map pm_id (p_room_log (fst (reached (p_message (js ''a'') 6 0 (js ''general'') (js ''y'') p_sent1))) (js ''general''))
       = [11/2, 6]
   \<and> map pm_id (p_room_log (fst (reached (p_file_upload (js ''a'') 6 0 (js ''general'') (js ''d'') (js ''f'') (js ''t'') p_sent1)))
        (js ''general'')) = [11/2, 6]"
    using th r u by (simp add: p_room_log_def p_stored_def p_stored_file_def p_message_id_examples)
  have q: "map bm_id (room_log b_sent1 (js ''r'')) = [js ''5-i'']
   \<and> map bm_id (room_log (fst (send_message (js ''a'') 6 (js ''9'') (js ''r'') (Some (js ''y'')) b_sent1)) (js ''r''))
       = [js ''5-i'', js ''6-9'']"
    using th b
    by (simp add: room_log_def stored_def ids push_trim_below trim_letter)
  have o: "js ''5-i'' < js ''6-9''"
    using th b i' s5 ids by (simp add: trim_letter) (simp add: js_def)
  from p q o show ?thesis by simp
qed

text \<open>
  Two messages sent within the millisecond 5 with the random numbers 0.5 and
  then 0.25 (random suffixes \<open>i\<close> and then \<open>9\<close>) get decreasing ids; and a message
  of one millisecond can get the id of a message of the next, the sum being
  rounded to a multiple of \<open>2 ^ - 12\<close> at present clock readings.
\<close>

theorem same_millisecond_ids_decrease:
  "map pm_timestamp (p_room_log p_burst (js ''general'')) = [5, 5]
   \<and> map pm_id (p_room_log p_burst (js ''general'')) = [11/2, 21/4]
   \<and> \<not> (11/2 :: rat) < 21/4
   \<and> map bm_timestamp (room_log b_burst (js ''r'')) = [5, 5]
   \<and> map bm_id (room_log b_burst (js ''r'')) = [js ''5-i'', js ''5-9'']
   \<and> \<not> js ''5-i'' < js ''5-9''
   \<and> p_message_id 1700000000000 (16383/16384) = p_message_id 1700000000001 0"
proof -
  from p_send_all_state[OF p_example_user p_example_room, of "[(5, 1/2, js ''x''), (5, 1/4, js ''y'')]"]
  have "p_rooms_get p_burst (js ''general'') = Some \<lparr>pr_name = js ''General Chat'', pr_password = None,
      pr_creator = js ''system'', pr_users = [js ''a''],
      pr_messages = map (p_stored (js ''u'')) [(5, 1/2, js ''x''), (5, 1/4, js ''y'')]\<rparr>"
    by (simp add: p_burst_def)
  then have p: "map pm_timestamp (p_room_log p_burst (js ''general'')) = [5, 5]
   \<and> map pm_id (p_room_log p_burst (js ''general'')) = [11/2, 21/4]"
    by (simp add: p_room_log_def p_stored_def p_message_id_examples)
  have "can_send b_example (js ''a'') (js ''r'') (js ''u'') []"
    by (simp add: can_send_def b_example_user b_example_room set_has_def)
  then have "can_send b_burst (js ''a'') (js ''r'') (js ''u'')
       (foldl (\<lambda>ms i. push_trim (stored (js ''a'') (js ''u'') (js ''r'') i) ms) [] [(5, js ''i'', js ''x''), (5, js ''9'', js ''y'')])"
    unfolding b_burst_def by (intro can_send_all) (simp_all add: trim_letter)
  then have "room_log b_burst (js ''r'') = map (stored (js ''a'') (js ''u'') (js ''r'')) [(5, js ''i'', js ''x''), (5, js ''9'', js ''y'')]"
    by (auto simp: can_send_def room_log_def push_trim_below)
  then have b: "map bm_timestamp (room_log b_burst (js ''r'')) = [5, 5]
   \<and> map bm_id (room_log b_burst (js ''r'')) = [js ''5-i'', js ''5-9'']"
    by (simp add: stored_def b_message_id_def show_nat.simps js_def)
  have o: "\<not> js ''5-i'' < js ''5-9''" by (simp add: js_def)
  from p b o show ?thesis by (simp add: p_message_id_rounds)
qed

end
